theory Spec2Isabelle
  imports
    Complex_Main
    "HOL-Library.Multiset"
    "HOL-Library.Char_ord"
    "HOL-Library.List_Lexorder"
begin

section \<open>Visualization utilities: sorting VTK files and rendering a movie\<close>

text \<open>
  A shallow embedding of \<^verbatim>\<open>post_processing/utils/visualization.py\<close>: the function
  \<^verbatim>\<open>get_sorted_files\<close> (the spec's \<^verbatim>\<open>list_ordered\<close>) and the function
  \<^verbatim>\<open>create_movie_from_vtk\<close> (the spec's \<^verbatim>\<open>render\<close>).

  Python exceptions are values of \<open>py_error\<close>; a function that may raise returns
  \<open>py_error + 'a\<close> with \<open>Inl\<close> for the exception. Strings are \<open>char list\<close>: a string
  is given by its bytes in UTF-8, the encoding of file names.
\<close>

subsection \<open>Exceptions\<close>

datatype py_error =
    IOError
  | ValueError
  | ZeroDivisionError
  | IndexError
  | CollaboratorError string

subsection \<open>The string functions of the standard library that the code calls\<close>

text \<open>\<^verbatim>\<open>str.split(sep)\<close> with an explicit separator: the string is cut at the
  non-overlapping occurrences of \<open>sep\<close>, found from the left; an empty separator raises
  \<^verbatim>\<open>ValueError\<close>.\<close>

function split_acc :: "string \<Rightarrow> string \<Rightarrow> string \<Rightarrow> string list" where
  "split_acc sep acc [] = [rev acc]"
| "split_acc sep acc (c # cs) =
     (if sep \<noteq> [] \<and> take (length sep) (c # cs) = sep
      then rev acc # split_acc sep [] (drop (length sep) (c # cs))
      else split_acc sep (c # acc) cs)"
  by pat_completeness auto
termination
  by (relation "measure (\<lambda>(sep, acc, s). length s)") auto

definition py_split :: "string \<Rightarrow> string \<Rightarrow> py_error + string list" where
  "py_split s sep = (if sep = [] then Inl ValueError else Inr (split_acc sep [] s))"

text \<open>A string stands for its UTF-8 bytes; a byte of a file name that does not decode
  stands, as in \<^verbatim>\<open>os.fsdecode\<close>, for the lone surrogate \<open>0xDC00 + byte\<close>. The functions
  above and the path functions below cut a string at ASCII characters or at a
  separator's own bytes, which on UTF-8 cuts at the same places as on the characters.
  \<^verbatim>\<open>int(s)\<close> looks at the characters themselves, so its model decodes them first.\<close>

definition byte_at :: "string \<Rightarrow> nat \<Rightarrow> int" where
  "byte_at s i = (if i < length s then of_char (s ! i) else - 1)"

definition is_cont :: "int \<Rightarrow> bool" where
  "is_cont b \<longleftrightarrow> 0x80 \<le> b \<and> b \<le> 0xBF"

text \<open>The character that starts with the byte \<open>a\<close>, followed by the bytes \<open>s\<close>, and the
  number of bytes of \<open>s\<close> that belong to it (the well-formed sequences of UTF-8).\<close>

definition utf8_head :: "char \<Rightarrow> string \<Rightarrow> int \<times> nat" where
  "utf8_head a s =
     (let x = of_char a; b = byte_at s 0; c = byte_at s 1; d = byte_at s 2
      in if x < 0x80 then (x, 0)
         else if 0xC2 \<le> x \<and> x \<le> 0xDF \<and> is_cont b
           then ((x - 0xC0) * 64 + (b - 0x80), 1)
         else if ((x = 0xE0 \<and> 0xA0 \<le> b \<and> b \<le> 0xBF)
                  \<or> (0xE1 \<le> x \<and> x \<le> 0xEC \<and> is_cont b)
                  \<or> (x = 0xED \<and> 0x80 \<le> b \<and> b \<le> 0x9F)
                  \<or> (0xEE \<le> x \<and> x \<le> 0xEF \<and> is_cont b)) \<and> is_cont c
           then ((x - 0xE0) * 4096 + (b - 0x80) * 64 + (c - 0x80), 2)
         else if ((x = 0xF0 \<and> 0x90 \<le> b \<and> b \<le> 0xBF)
                  \<or> (0xF1 \<le> x \<and> x \<le> 0xF3 \<and> is_cont b)
                  \<or> (x = 0xF4 \<and> 0x80 \<le> b \<and> b \<le> 0x8F)) \<and> is_cont c \<and> is_cont d
           then ((x - 0xF0) * 262144 + (b - 0x80) * 4096 + (c - 0x80) * 64 + (d - 0x80), 3)
         else (0xDC00 + x, 0))"

function utf8_decode :: "string \<Rightarrow> int list" where
  "utf8_decode [] = []"
| "utf8_decode (a # s) = (case utf8_head a s of (cp, k) \<Rightarrow> cp # utf8_decode (drop k s))"
  by pat_completeness auto
termination
  by (relation "measure length") auto

text \<open>The interpreter's character database (Unicode 14, as in CPython 3.11): the white
  space beyond ASCII, and the decimal digits beyond ASCII, which come in runs of ten
  from a zero on.\<close>

definition unicode_space :: "int \<Rightarrow> bool" where
  "unicode_space cp \<longleftrightarrow>
     cp \<in> set [0x85, 0xA0, 0x1680, 0x2028, 0x2029, 0x202F, 0x205F, 0x3000]
     \<or> (0x2000 \<le> cp \<and> cp \<le> 0x200A)"

definition decimal_zeros :: "int list" where
  "decimal_zeros =
     [0x660, 0x6F0, 0x7C0, 0x966, 0x9E6, 0xA66, 0xAE6, 0xB66,
      0xBE6, 0xC66, 0xCE6, 0xD66, 0xDE6, 0xE50, 0xED0, 0xF20,
      0x1040, 0x1090, 0x17E0, 0x1810, 0x1946, 0x19D0, 0x1A80, 0x1A90,
      0x1B50, 0x1BB0, 0x1C40, 0x1C50, 0xA620, 0xA8D0, 0xA900, 0xA9D0,
      0xA9F0, 0xAA50, 0xABF0, 0xFF10, 0x104A0, 0x10D30, 0x11066, 0x110F0,
      0x11136, 0x111D0, 0x112F0, 0x11450, 0x114D0, 0x11650, 0x116C0, 0x11730,
      0x118E0, 0x11950, 0x11C50, 0x11D50, 0x11DA0, 0x16A60, 0x16AC0, 0x16B50,
      0x1D7CE, 0x1D7D8, 0x1D7E2, 0x1D7EC, 0x1D7F6, 0x1E140, 0x1E2F0, 0x1E950,
      0x1FBF0]"

definition unicode_decimal :: "int \<Rightarrow> int option" where
  "unicode_decimal cp =
     (case filter (\<lambda>z. z \<le> cp \<and> cp < z + 10) decimal_zeros of
        [] \<Rightarrow> None
      | z # _ \<Rightarrow> Some (cp - z))"

text \<open>\<^verbatim>\<open>int(s)\<close> on a string, base 10. Every character is first brought to ASCII: an
  ASCII character stays, white space becomes a space, a decimal digit becomes its
  ASCII digit, and any other character becomes a question mark. Then white space
  around the literal is dropped, one sign is allowed, then decimal digits, where single
  underscores may stand between digits. Anything else raises \<^verbatim>\<open>ValueError\<close>. (The limit
  that newer interpreters put on the number of digits is not modelled: file names are
  shorter.)\<close>

definition to_ascii :: "int \<Rightarrow> char" where
  "to_ascii cp =
     (if cp < 127 then char_of cp
      else if unicode_space cp then CHR '' ''
      else (case unicode_decimal cp of Some d \<Rightarrow> char_of (48 + d) | None \<Rightarrow> CHR ''?''))"

definition is_ascii_space :: "char \<Rightarrow> bool" where
  "is_ascii_space c \<longleftrightarrow> c \<in> set [CHR '' '', CHR 0x09, CHR 0x0A, CHR 0x0B, CHR 0x0C, CHR 0x0D]"

definition is_ascii_digit :: "char \<Rightarrow> bool" where
  "is_ascii_digit c \<longleftrightarrow> (48::nat) \<le> of_char c \<and> of_char c \<le> (57::nat)"

definition digit_val :: "char \<Rightarrow> int" where
  "digit_val c = int (of_char c) - 48"

definition strip :: "string \<Rightarrow> string" where
  "strip s = rev (dropWhile is_ascii_space (rev (dropWhile is_ascii_space s)))"

fun valid_body :: "string \<Rightarrow> bool" where
  "valid_body [] = False"
| "valid_body [c] = is_ascii_digit c"
| "valid_body (c # d # cs) =
     (if is_ascii_digit c
      then (if d = CHR ''_'' then valid_body cs else valid_body (d # cs))
      else False)"

definition body_val :: "string \<Rightarrow> int" where
  "body_val b = foldl (\<lambda>acc c. 10 * acc + digit_val c) 0 (filter is_ascii_digit b)"

definition py_int :: "string \<Rightarrow> py_error + int" where
  "py_int s =
     (let t = strip (map to_ascii (utf8_decode s));
          neg = (t \<noteq> [] \<and> hd t = CHR ''-'');
          body = (if t \<noteq> [] \<and> (hd t = CHR ''-'' \<or> hd t = CHR ''+'') then tl t else t)
      in if valid_body body
         then Inr (if neg then - body_val body else body_val body)
         else Inl ValueError)"

text \<open>\<^verbatim>\<open>str(n)\<close> for a non-negative integer, and \<^verbatim>\<open>str.zfill(width)\<close>, which pads
  with zeros on the left, after a sign if there is one, and never truncates.\<close>

definition digit_char :: "nat \<Rightarrow> char" where
  "digit_char d = char_of (48 + d)"

function str_nat :: "nat \<Rightarrow> string" where
  "str_nat n = (if n < 10 then [digit_char n] else str_nat (n div 10) @ [digit_char (n mod 10)])"
  by pat_completeness auto
termination
  by (relation "measure id") auto

declare str_nat.simps [simp del]

definition zfill :: "nat \<Rightarrow> string \<Rightarrow> string" where
  "zfill width s =
     (let fill = replicate (width - length s) CHR ''0''
      in case s of
           [] \<Rightarrow> fill
         | c # cs \<Rightarrow> if c = CHR ''+'' \<or> c = CHR ''-'' then c # fill @ cs else fill @ s)"

subsection \<open>Paths: \<^verbatim>\<open>os.path.join\<close> and \<^verbatim>\<open>pathlib.Path\<close> on POSIX\<close>

text \<open>\<^verbatim>\<open>os.path.join(a, p)\<close> with two arguments: an absolute second argument replaces
  the first; otherwise the two are joined by one slash, unless the first is empty or
  already ends in a slash.\<close>

definition os_path_join :: "string \<Rightarrow> string \<Rightarrow> string" where
  "os_path_join a p =
     (if p \<noteq> [] \<and> hd p = CHR ''/'' then p
      else if a = [] \<or> last a = CHR ''/'' then a @ p
      else a @ ''/'' @ p)"

text \<open>\<^verbatim>\<open>pathlib.Path(p).name\<close> is the last component of the path, where empty
  components and \<^verbatim>\<open>.\<close> components are dropped. \<^verbatim>\<open>suffix\<close> is the part of the name from
  its last dot on, when that dot is neither the first nor the last character of the
  name; \<^verbatim>\<open>stem\<close> is the name without the suffix.\<close>

definition path_parts :: "string \<Rightarrow> string list" where
  "path_parts p = filter (\<lambda>s. s \<noteq> [] \<and> s \<noteq> ''.'') (split_acc ''/'' [] p)"

definition path_name :: "string \<Rightarrow> string" where
  "path_name p = (case rev (path_parts p) of [] \<Rightarrow> [] | n # _ \<Rightarrow> n)"

definition rfind :: "string \<Rightarrow> char \<Rightarrow> int" where
  "rfind s c = (case filter (\<lambda>i. s ! i = c) (rev [0..<length s]) of [] \<Rightarrow> - 1 | i # _ \<Rightarrow> int i)"

definition path_suffix :: "string \<Rightarrow> string" where
  "path_suffix p =
     (let name = path_name p; i = rfind name CHR ''.''
      in if 0 < i \<and> i < int (length name) - 1 then drop (nat i) name else [])"

definition path_stem :: "string \<Rightarrow> string" where
  "path_stem p =
     (let name = path_name p; i = rfind name CHR ''.''
      in if 0 < i \<and> i < int (length name) - 1 then take (nat i) name else name)"

subsection \<open>The outside world\<close>

text \<open>
  The file system and the libraries the module drives (\<^verbatim>\<open>pyvista\<close>, \<^verbatim>\<open>moviepy\<close>,
  \<^verbatim>\<open>tempfile\<close>) are black boxes. An environment fixes how each of their calls answers:
  \<open>None\<close> for a call that returns, \<open>Some e\<close> for one that raises \<open>e\<close>. The rendering
  options (\<^verbatim>\<open>scalars\<close>, \<^verbatim>\<open>scalar_limits\<close>, \<^verbatim>\<open>camera\<close>, \<^verbatim>\<open>color\<close>, \<^verbatim>\<open>cmap\<close>) are handed
  to these calls unchanged and decide no branch of the module, so they are part of the
  environment's answers rather than arguments of the model.

  The world records what the call did: the calls made, in order, whether the plotter is
  still open, and the temporary directories and files on disk.
\<close>

datatype event =
    Exists string
  | Scandir string
  | StartXvfb
  | SetBackground string
  | NewPlotter
  | SetCamera
  | MkDTemp
  | PvRead string
  | AddMesh string
  | Screenshot string
  | PlotterClose
  | ImageSequenceClip "string list" int
  | WriteVideofile string
  | Cleanup string

record env =
  path_exists :: "string \<Rightarrow> bool"
  dir_names :: "string \<Rightarrow> py_error + string list"
  start_xvfb :: "py_error option"
  new_plotter :: "py_error option"
  set_camera :: "py_error option"
  mkdtemp :: "py_error + string"
  pv_read :: "string \<Rightarrow> py_error option"
  add_mesh :: "string \<Rightarrow> py_error option"
  screenshot :: "string \<Rightarrow> py_error option"
  plotter_close :: "py_error option"
  make_clip :: "string list \<Rightarrow> int \<Rightarrow> py_error option"
  write_videofile :: "string \<Rightarrow> py_error option"

record world =
  trace :: "event list"
  plotter_open :: bool
  tmp_dirs :: "string list"
  tmp_files :: "string list"

definition emit :: "event \<Rightarrow> world \<Rightarrow> world" where
  "emit ev w = w\<lparr>trace := trace w @ [ev]\<rparr>"

subsection \<open>\<^verbatim>\<open>get_sorted_files\<close>\<close>

text \<open>A directory entry as \<^verbatim>\<open>os.scandir\<close> yields it; the code reads only its
  \<^verbatim>\<open>path\<close>, which is \<^verbatim>\<open>os.path.join\<close> of the scanned directory and the entry's name.\<close>

datatype DirEntry = DirEntry (path: string)

definition scandir :: "env \<Rightarrow> string \<Rightarrow> py_error + DirEntry list" where
  "scandir en data_dir =
     (case dir_names en data_dir of
        Inl e \<Rightarrow> Inl e
      | Inr names \<Rightarrow> Inr (map (\<lambda>n. DirEntry (os_path_join data_dir n)) names))"

text \<open>The sort key: the last piece of the stem, as an integer.\<close>

definition get_alphanum_key :: "string \<Rightarrow> DirEntry \<Rightarrow> py_error + int" where
  "get_alphanum_key split_token file =
     (case py_split (path_stem (path file)) split_token of
        Inl e \<Rightarrow> Inl e
      | Inr file_name_splits \<Rightarrow>
          if file_name_splits = [] then Inl IndexError
          else py_int (last file_name_splits))"

text \<open>\<^verbatim>\<open>sorted(files, key=f)\<close> computes the key of every element first, in list
  order, and raises what the first failing key raises; then it sorts stably by key.\<close>

fun keys_of :: "('a \<Rightarrow> py_error + int) \<Rightarrow> 'a list \<Rightarrow> py_error + int list" where
  "keys_of f [] = Inr []"
| "keys_of f (x # xs) =
     (case f x of
        Inl e \<Rightarrow> Inl e
      | Inr k \<Rightarrow> (case keys_of f xs of Inl e \<Rightarrow> Inl e | Inr ks \<Rightarrow> Inr (k # ks)))"

definition sorted_by :: "('a \<Rightarrow> py_error + int) \<Rightarrow> 'a list \<Rightarrow> py_error + 'a list" where
  "sorted_by f xs =
     (case keys_of f xs of
        Inl e \<Rightarrow> Inl e
      | Inr ks \<Rightarrow> Inr (map snd (sort_key fst (zip ks xs))))"

definition get_sorted_files ::
  "env \<Rightarrow> string \<Rightarrow> string \<Rightarrow> string \<Rightarrow> world \<Rightarrow> (py_error + DirEntry list) \<times> world" where
  "get_sorted_files en data_dir file_format split_token w =
     (let w1 = emit (Exists data_dir) w
      in if \<not> path_exists en data_dir then (Inl IOError, w1)
         else
           let w2 = emit (Scandir data_dir) w1
           in case scandir en data_dir of
                Inl e \<Rightarrow> (Inl e, w2)
              | Inr entries \<Rightarrow>
                  let files = filter (\<lambda>file. path_suffix (path file) = file_format) entries
                  in (sorted_by (get_alphanum_key split_token) files, w2))"

subsection \<open>\<^verbatim>\<open>create_movie_from_vtk\<close>\<close>

text \<open>A call to a collaborator is recorded in the trace, then returns or raises as
  the environment says. \<open>bind\<close> runs the next statement unless the one before raised.\<close>

definition call :: "event \<Rightarrow> py_error option \<Rightarrow> world \<Rightarrow> (py_error + unit) \<times> world" where
  "call ev answer w = (case answer of None \<Rightarrow> (Inr (), emit ev w) | Some e \<Rightarrow> (Inl e, emit ev w))"

definition bind ::
  "(world \<Rightarrow> (py_error + 'a) \<times> world) \<Rightarrow> ('a \<Rightarrow> world \<Rightarrow> (py_error + 'b) \<times> world) \<Rightarrow>
   world \<Rightarrow> (py_error + 'b) \<times> world" where
  "bind m f w = (case m w of (Inl e, w') \<Rightarrow> (Inl e, w') | (Inr x, w') \<Rightarrow> f x w')"

text \<open>\<^verbatim>\<open>round(a / b)\<close> for integers \<open>a\<close> and \<open>b \<noteq> 0\<close>: the nearest integer to the
  quotient, and the even one of the two when the quotient lies half way. For the
  quotients \<open>60 / fps\<close> of the code the floating-point division decides the same as the
  exact quotient: a quotient that is not half way is further from it than the rounding
  error of the division.\<close>

definition py_round_div :: "int \<Rightarrow> int \<Rightarrow> int" where
  "py_round_div a b =
     (let q = a div b; r = a mod b
      in if 2 * \<bar>r\<bar> < \<bar>b\<bar> then q
         else if \<bar>b\<bar> < 2 * \<bar>r\<bar> then q + 1
         else if even q then q else q + 1)"

text \<open>The sampling test \<^verbatim>\<open>index % int(round(60 / fps)) == 0\<close>: the division raises
  for \<open>fps = 0\<close>, the remainder raises for a stride of \<open>0\<close>.\<close>

definition stride :: "int \<Rightarrow> py_error + int" where
  "stride fps = (if fps = 0 then Inl ZeroDivisionError else Inr (py_round_div 60 fps))"

definition sample_test :: "int \<Rightarrow> nat \<Rightarrow> py_error + bool" where
  "sample_test fps index =
     (case stride fps of
        Inl e \<Rightarrow> Inl e
      | Inr s \<Rightarrow> if s = 0 then Inl ZeroDivisionError else Inr (int index mod s = 0))"

definition image_frame_name :: "nat \<Rightarrow> string" where
  "image_frame_name index = ''frame_'' @ zfill 5 (str_nat index) @ ''.png''"

text \<open>\<^verbatim>\<open>plt.screenshot\<close> writes the image file; the file is taken to be on disk once the
  call was made, also when the call then raises.\<close>

definition take_screenshot :: "env \<Rightarrow> string \<Rightarrow> world \<Rightarrow> (py_error + unit) \<times> world" where
  "take_screenshot en p w =
     call (Screenshot p) (screenshot en p) (w\<lparr>tmp_files := tmp_files w @ [p]\<rparr>)"

text \<open>The body of the \<^verbatim>\<open>for\<close> loop over \<^verbatim>\<open>enumerate(vtk_files)\<close>; \<open>frames\<close> is the list
  the loop appends to.\<close>

fun frame_loop ::
  "env \<Rightarrow> string \<Rightarrow> int \<Rightarrow> string \<Rightarrow> (nat \<times> DirEntry) list \<Rightarrow> string list \<Rightarrow> world \<Rightarrow>
   (py_error + string list) \<times> world" where
  "frame_loop en vtk_output_dir fps tmp_dir [] frames w = (Inr frames, w)"
| "frame_loop en vtk_output_dir fps tmp_dir ((index, frame_file) # rest) frames w =
     (case sample_test fps index of
        Inl e \<Rightarrow> (Inl e, w)
      | Inr False \<Rightarrow> frame_loop en vtk_output_dir fps tmp_dir rest frames w
      | Inr True \<Rightarrow>
          let frame_path = os_path_join vtk_output_dir (path frame_file);
              image_frame_path = os_path_join tmp_dir (image_frame_name index)
          in case call (PvRead frame_path) (pv_read en frame_path) w of
               (Inl e, w1) \<Rightarrow> (Inl e, w1)
             | (Inr _, w1) \<Rightarrow>
                 (case call (AddMesh frame_path) (add_mesh en frame_path) w1 of
                    (Inl e, w2) \<Rightarrow> (Inl e, w2)
                  | (Inr _, w2) \<Rightarrow>
                      (case take_screenshot en image_frame_path w2 of
                         (Inl e, w3) \<Rightarrow> (Inl e, w3)
                       | (Inr _, w3) \<Rightarrow>
                           frame_loop en vtk_output_dir fps tmp_dir rest
                             (frames @ [image_frame_path]) w3)))"

text \<open>\<^verbatim>\<open>pv.Plotter(off_screen=True)\<close> and \<^verbatim>\<open>plt.close()\<close>.\<close>

definition open_plotter :: "env \<Rightarrow> world \<Rightarrow> (py_error + unit) \<times> world" where
  "open_plotter en w =
     (case call NewPlotter (new_plotter en) w of
        (Inl e, w') \<Rightarrow> (Inl e, w')
      | (Inr _, w') \<Rightarrow> (Inr (), w'\<lparr>plotter_open := True\<rparr>))"

definition close_plotter :: "env \<Rightarrow> world \<Rightarrow> (py_error + unit) \<times> world" where
  "close_plotter en w =
     (case call PlotterClose (plotter_close en) w of
        (Inl e, w') \<Rightarrow> (Inl e, w')
      | (Inr _, w') \<Rightarrow> (Inr (), w'\<lparr>plotter_open := False\<rparr>))"

text \<open>\<^verbatim>\<open>with tempfile.TemporaryDirectory() as tmp_dir\<close>: the directory is made, the body
  runs, and the directory goes with everything below it, however the body ends.\<close>

definition inside :: "string \<Rightarrow> string \<Rightarrow> bool" where
  "inside d p \<longleftrightarrow> take (length (os_path_join d [])) p = os_path_join d []"

definition cleanup :: "string \<Rightarrow> world \<Rightarrow> world" where
  "cleanup d w =
     emit (Cleanup d)
       (w\<lparr>tmp_dirs := removeAll d (tmp_dirs w),
          tmp_files := filter (\<lambda>p. \<not> inside d p) (tmp_files w)\<rparr>)"

definition with_temporary_directory ::
  "env \<Rightarrow> (string \<Rightarrow> world \<Rightarrow> (py_error + 'a) \<times> world) \<Rightarrow> world \<Rightarrow> (py_error + 'a) \<times> world" where
  "with_temporary_directory en body w =
     (case mkdtemp en of
        Inl e \<Rightarrow> (Inl e, emit MkDTemp w)
      | Inr d \<Rightarrow>
          (case body d ((emit MkDTemp w)\<lparr>tmp_dirs := tmp_dirs w @ [d]\<rparr>) of
             (r, w') \<Rightarrow> (r, cleanup d w')))"

record movie_args =
  vtk_output_dir :: string
  movie_path :: string
  virtual_display :: bool
  fps :: int

definition create_movie_from_vtk :: "env \<Rightarrow> movie_args \<Rightarrow> world \<Rightarrow> (py_error + unit) \<times> world" where
  "create_movie_from_vtk en a =
     bind (if virtual_display a then call StartXvfb (start_xvfb en) else (\<lambda>w. (Inr (), w))) (\<lambda>_.
     bind (call (SetBackground ''white'') None) (\<lambda>_.
     bind (get_sorted_files en (vtk_output_dir a) ''.vtk'' ''_'') (\<lambda>vtk_files.
     bind (open_plotter en) (\<lambda>_.
     bind (call SetCamera (set_camera en)) (\<lambda>_.
     with_temporary_directory en (\<lambda>tmp_dir.
       bind (frame_loop en (vtk_output_dir a) (fps a) tmp_dir
               (zip [0..<length vtk_files] vtk_files) []) (\<lambda>frames.
       bind (close_plotter en) (\<lambda>_.
       bind (call (ImageSequenceClip frames (fps a)) (make_clip en frames (fps a))) (\<lambda>_.
       call (WriteVideofile (movie_path a)) (write_videofile en (movie_path a)))))))))))"

subsection \<open>Reading a run\<close>

text \<open>The value of a sort key, where there is one, and the integer index of a file.\<close>

definition key_val :: "('a \<Rightarrow> py_error + int) \<Rightarrow> 'a \<Rightarrow> int" where
  "key_val f x = (case f x of Inr k \<Rightarrow> k | Inl _ \<Rightarrow> 0)"

definition index_of :: "string \<Rightarrow> DirEntry \<Rightarrow> int" where
  "index_of split_token file =
     (case get_alphanum_key split_token file of Inr k \<Rightarrow> k | Inl _ \<Rightarrow> 0)"

text \<open>The positions of \<open>0, \<dots>, n - 1\<close> that pass the sampling test.\<close>

definition sampled :: "int \<Rightarrow> nat \<Rightarrow> nat list" where
  "sampled rate n = filter (\<lambda>p. sample_test rate p = Inr True) [0..<n]"

text \<open>The calls of one kind in a trace, in order.\<close>

definition reads :: "event list \<Rightarrow> string list" where
  "reads evs = concat (map (\<lambda>ev. case ev of PvRead p \<Rightarrow> [p] | _ \<Rightarrow> []) evs)"

definition screenshots :: "event list \<Rightarrow> string list" where
  "screenshots evs = concat (map (\<lambda>ev. case ev of Screenshot p \<Rightarrow> [p] | _ \<Rightarrow> []) evs)"

definition is_encoder_call :: "event \<Rightarrow> bool" where
  "is_encoder_call ev =
     (case ev of ImageSequenceClip _ _ \<Rightarrow> True | WriteVideofile _ \<Rightarrow> True | _ \<Rightarrow> False)"

definition is_render_call :: "event \<Rightarrow> bool" where
  "is_render_call ev =
     (case ev of PvRead _ \<Rightarrow> True | AddMesh _ \<Rightarrow> True | Screenshot _ \<Rightarrow> True | _ \<Rightarrow> False)"

text \<open>The events of one rendered frame, and of a run of the loop over the positions
  \<open>ps\<close> of the files \<open>fs\<close>.\<close>

definition frame_events :: "string \<Rightarrow> string \<Rightarrow> nat \<times> DirEntry \<Rightarrow> event list" where
  "frame_events data_dir tmp_dir x =
     [PvRead (os_path_join data_dir (path (snd x))),
      AddMesh (os_path_join data_dir (path (snd x))),
      Screenshot (os_path_join tmp_dir (image_frame_name (fst x)))]"

text \<open>The enumerated files that pass the sampling test.\<close>

definition selected :: "int \<Rightarrow> (nat \<times> DirEntry) list \<Rightarrow> (nat \<times> DirEntry) list" where
  "selected rate xs = filter (\<lambda>x. sample_test rate (fst x) = Inr True) xs"

text \<open>What a statement does to the temporary directories and files: nothing, only
  adding files below \<open>d\<close>, or leaving nothing new behind.\<close>

definition keeps_tmp :: "(world \<Rightarrow> 'r \<times> world) \<Rightarrow> bool" where
  "keeps_tmp m \<longleftrightarrow>
     (\<forall>w. tmp_files (snd (m w)) = tmp_files w \<and> tmp_dirs (snd (m w)) = tmp_dirs w)"

definition fills :: "string \<Rightarrow> (world \<Rightarrow> 'r \<times> world) \<Rightarrow> bool" where
  "fills d m \<longleftrightarrow>
     (\<forall>w. tmp_dirs (snd (m w)) = tmp_dirs w
        \<and> (\<exists>ps. tmp_files (snd (m w)) = tmp_files w @ ps \<and> (\<forall>p\<in>set ps. inside d p)))"

definition tidy :: "(world \<Rightarrow> 'r \<times> world) \<Rightarrow> bool" where
  "tidy m \<longleftrightarrow>
     (\<forall>w. set (tmp_files (snd (m w))) \<subseteq> set (tmp_files w)
        \<and> set (tmp_dirs (snd (m w))) \<subseteq> set (tmp_dirs w))"

text \<open>The number \<open>n\<close> in exactly \<open>k\<close> decimal digits (its last \<open>k\<close> digits).\<close>

fun fixed :: "nat \<Rightarrow> nat \<Rightarrow> string" where
  "fixed 0 n = []"
| "fixed (Suc k) n = fixed k (n div 10) @ [digit_char (n mod 10)]"

subsection \<open>Example environments\<close>

text \<open>A directory \<^verbatim>\<open>out\<close> with the given entries, in the given enumeration order, where
  reading a mesh answers as \<open>rd\<close> says and every other call returns.\<close>

definition demo_env :: "string list \<Rightarrow> (string \<Rightarrow> py_error option) \<Rightarrow> env" where
  "demo_env names rd =
     \<lparr>path_exists = (\<lambda>d. d = ''out''),
      dir_names = (\<lambda>d. Inr names),
      start_xvfb = None,
      new_plotter = None,
      set_camera = None,
      mkdtemp = Inr ''/tmp/tmpq1'',
      pv_read = rd,
      add_mesh = (\<lambda>p. None),
      screenshot = (\<lambda>p. None),
      plotter_close = None,
      make_clip = (\<lambda>frames n. None),
      write_videofile = (\<lambda>p. None)\<rparr>"

definition demo_args :: "int \<Rightarrow> movie_args" where
  "demo_args n =
     \<lparr>vtk_output_dir = ''out'', movie_path = ''movie.mp4'', virtual_display = True, fps = n\<rparr>"

definition empty_world :: world where
  "empty_world = \<lparr>trace = [], plotter_open = False, tmp_dirs = [], tmp_files = []\<rparr>"

section \<open>Properties of \<^verbatim>\<open>get_sorted_files\<close>\<close>



subsection \<open>Keys and stable sorting\<close>

lemma keys_of_Inr:
  "keys_of f xs = Inr ks \<Longrightarrow> ks = map (key_val f) xs \<and> (\<forall>x\<in>set xs. f x = Inr (key_val f x))"
  by (induction xs arbitrary: ks) (auto simp: key_val_def split: sum.splits)

lemma keys_of_Inl:
  "keys_of f xs = Inl e \<Longrightarrow> \<exists>x\<in>set xs. f x = Inl e"
  by (induction xs) (auto split: sum.splits)

lemma keys_of_fails:
  "x \<in> set xs \<Longrightarrow> f x = Inl e \<Longrightarrow> \<exists>e'. keys_of f xs = Inl e'"
  by (induction xs) (auto split: sum.splits)

lemma insort_key_zip:
  "\<forall>p\<in>set ps. fst p = g (snd p) \<Longrightarrow>
   map snd (insort_key fst (g x, x) ps) = insort_key g x (map snd ps)"
  by (induction ps) auto

lemma sort_key_zip_aux:
  "map snd (sort_key fst (zip (map g xs) xs)) = sort_key g xs
   \<and> (\<forall>p\<in>set (sort_key fst (zip (map g xs) xs)). fst p = g (snd p))"
proof (induction xs)
  case Nil
  then show ?case by simp
next
  case (Cons x xs)
  then show ?case by (simp add: insort_key_zip set_insort_key)
qed

lemma sorted_by_Inr:
  assumes "sorted_by f xs = Inr ys"
  shows "ys = sort_key (key_val f) xs" and "\<forall>x\<in>set xs. f x = Inr (key_val f x)"
  using assms keys_of_Inr [of f xs] sort_key_zip_aux [of "key_val f" xs]
  by (auto simp: sorted_by_def split: sum.splits)


lemma filter_key_distinct:
  "distinct (map g zs) \<Longrightarrow> k \<in> set zs \<Longrightarrow> filter (\<lambda>x. g k = g x) zs = [k]"
proof (induction zs)
  case Nil
  then show ?case by simp
next
  case (Cons z zs)
  show ?case
  proof (cases "k = z")
    case True
    have "filter (\<lambda>x. g z = g x) zs = []"
      using Cons.prems(1) by (auto simp: filter_empty_conv)
    with True show ?thesis by simp
  next
    case False
    then have kz: "k \<in> set zs" using Cons.prems(2) by simp
    have "g z \<notin> g ` set zs" using Cons.prems(1) by simp
    with kz have "g k \<noteq> g z" by (metis imageI)
    with Cons kz show ?thesis by simp
  qed
qed

lemma sort_key_perm_distinct:
  assumes "mset xs = mset ys" "distinct (map g xs)"
  shows "sort_key g xs = sort_key g ys"
proof (rule properties_for_sort_key)
  show "mset (sort_key g ys) = mset xs" using assms(1) by simp
  show "sorted (map g (sort_key g ys))" by simp
  fix k assume k: "k \<in> set (sort_key g ys)"
  have kx: "k \<in> set xs" using k assms(1) by (metis set_sort mset_eq_setD)
  have "mset (map g (sort_key g ys)) = mset (map g xs)" using assms(1) by simp
  then have d: "distinct (map g (sort_key g ys))"
    using assms(2) by (metis mset_eq_imp_distinct_iff)
  show "filter (\<lambda>x. g k = g x) (sort_key g ys) = filter (\<lambda>x. g k = g x) xs"
    using filter_key_distinct [OF d k] filter_key_distinct [OF assms(2) kx] by simp
qed


lemma keys_of_all_valid:
  "\<forall>x\<in>set xs. f x = Inr (g x) \<Longrightarrow> keys_of f xs = Inr (map g xs)"
  by (induction xs) auto

lemma sorted_by_valid:
  "\<forall>x\<in>set xs. f x = Inr (key_val f x) \<Longrightarrow> sorted_by f xs = Inr (sort_key (key_val f) xs)"
  using keys_of_all_valid [of xs f "key_val f"] sort_key_zip_aux [of "key_val f" xs]
  by (simp add: sorted_by_def)

lemma get_sorted_files_listing:
  "path_exists en d \<Longrightarrow> dir_names en d = Inr names \<Longrightarrow>
   fst (get_sorted_files en d fmt tok w) =
     sorted_by (get_alphanum_key tok)
       (filter (\<lambda>file. path_suffix (path file) = fmt) (map (\<lambda>n. DirEntry (os_path_join d n)) names))"
  by (simp add: get_sorted_files_def scandir_def)

lemma index_of_key_val: "index_of tok = key_val (get_alphanum_key tok)"
  by (rule ext) (simp add: index_of_def key_val_def)

text \<open>
  C1, as the code has it. When \<^verbatim>\<open>get_sorted_files\<close> returns, it returns the matching
  entries of the directory (each of them once), every one of them has an integer index,
  and the indices ascend, where files of equal index keep their enumeration order. When
  the indices are pairwise distinct they ascend strictly, and the result is the same for
  every enumeration order of the directory.
\<close>

theorem get_sorted_files_ascending:
  assumes "path_exists en data_dir" and "dir_names en data_dir = Inr names"
    and "fst (get_sorted_files en data_dir file_format split_token w) = Inr out"
  shows "mset out = mset (filter (\<lambda>file. path_suffix (path file) = file_format)
                       (map (\<lambda>n. DirEntry (os_path_join data_dir n)) names))
       \<and> (\<forall>file\<in>set out. get_alphanum_key split_token file = Inr (index_of split_token file))
       \<and> sorted (map (index_of split_token) out)
       \<and> (\<forall>k. filter (\<lambda>file. index_of split_token file = k) out
              = filter (\<lambda>file. index_of split_token file = k)
                  (filter (\<lambda>file. path_suffix (path file) = file_format)
                     (map (\<lambda>n. DirEntry (os_path_join data_dir n)) names)))
       \<and> (distinct (map (index_of split_token) out) \<longrightarrow>
            sorted_wrt (<) (map (index_of split_token) out)
            \<and> (\<forall>en' names' w'.
                  path_exists en' data_dir \<longrightarrow> dir_names en' data_dir = Inr names' \<longrightarrow>
                  mset names' = mset names \<longrightarrow>
                  fst (get_sorted_files en' data_dir file_format split_token w') = Inr out))"
proof -
  define f where "f = get_alphanum_key split_token"
  define g where "g = key_val f"
  define h where "h = (\<lambda>n. DirEntry (os_path_join data_dir n))"
  define P where "P = (\<lambda>file. path_suffix (path file) = file_format)"
  define files where "files = filter P (map h names)"
  have ix: "index_of split_token = g"
    by (simp add: g_def f_def index_of_key_val)
  have "sorted_by f files = Inr out"
    using assms get_sorted_files_listing [OF assms(1,2), of file_format split_token w]
    by (simp add: f_def files_def P_def h_def)
  then have out: "out = sort_key g files" and valid: "\<forall>x\<in>set files. f x = Inr (g x)"
    using sorted_by_Inr [of f files out] by (simp_all add: g_def)
  have m: "mset out = mset files" by (simp add: out)
  have v: "\<forall>file\<in>set out. f file = Inr (g file)" using valid by (simp add: out)
  have s: "sorted (map g out)" by (simp add: out)
  have st: "\<forall>k. filter (\<lambda>file. g file = k) out = filter (\<lambda>file. g file = k) files"
    by (simp add: out sort_key_stable)
  have d: "distinct (map g out) \<longrightarrow> sorted_wrt (<) (map g out)
            \<and> (\<forall>en' names' w'.
                  path_exists en' data_dir \<longrightarrow> dir_names en' data_dir = Inr names' \<longrightarrow>
                  mset names' = mset names \<longrightarrow>
                  fst (get_sorted_files en' data_dir file_format split_token w') = Inr out)"
  proof (intro impI conjI allI)
    assume dist: "distinct (map g out)"
    show "sorted_wrt (<) (map g out)" using s dist by (simp add: strict_sorted_iff)
    fix en' :: env and names' :: "string list" and w' :: world
    assume e: "path_exists en' data_dir" and n: "dir_names en' data_dir = Inr names'"
      and p: "mset names' = mset names"
    define files' where "files' = filter P (map h names')"
    have mf: "mset files' = mset files" using p by (simp add: files'_def files_def)
    then have "set files' = set files" by (metis set_mset_mset)
    then have "sorted_by f files' = Inr (sort_key g files')"
      using valid sorted_by_valid [of files' f] by (simp add: g_def)
    moreover have "distinct (map g files)"
      using dist m by (metis mset_map mset_eq_imp_distinct_iff)
    then have "sort_key g files = sort_key g files'"
      using sort_key_perm_distinct [of files files' g] mf by simp
    ultimately show "fst (get_sorted_files en' data_dir file_format split_token w') = Inr out"
      using get_sorted_files_listing [OF e n, of file_format split_token w']
      by (simp add: f_def files'_def P_def h_def out)
  qed
  show ?thesis
    using m v s st d by (simp add: ix f_def files_def P_def h_def)
qed


theorem get_sorted_files_ascending_witness:
  "path_exists (demo_env [''f_10.vtk'', ''f_2.vtk'', ''f_1.vtk''] (\<lambda>p. None)) ''out''
   \<and> fst (get_sorted_files (demo_env [''f_10.vtk'', ''f_2.vtk'', ''f_1.vtk''] (\<lambda>p. None))
           ''out'' ''.vtk'' ''_'' empty_world)
       = Inr [DirEntry ''out/f_1.vtk'', DirEntry ''out/f_2.vtk'', DirEntry ''out/f_10.vtk'']
   \<and> map (index_of ''_'')
         [DirEntry ''out/f_1.vtk'', DirEntry ''out/f_2.vtk'', DirEntry ''out/f_10.vtk'']
       = [1, 2, 10]
   \<and> sorted_wrt (<) (map (index_of ''_'')
         [DirEntry ''out/f_1.vtk'', DirEntry ''out/f_2.vtk'', DirEntry ''out/f_10.vtk''])
   \<and> fst (get_sorted_files (demo_env [''f_1.vtk'', ''f_10.vtk'', ''f_2.vtk''] (\<lambda>p. None))
           ''out'' ''.vtk'' ''_'' empty_world)
       = Inr [DirEntry ''out/f_1.vtk'', DirEntry ''out/f_2.vtk'', DirEntry ''out/f_10.vtk'']"
proof -
  let ?E = "demo_env [''f_10.vtk'', ''f_2.vtk'', ''f_1.vtk''] (\<lambda>p. None)"
  let ?E' = "demo_env [''f_1.vtk'', ''f_10.vtk'', ''f_2.vtk''] (\<lambda>p. None)"
  let ?out = "[DirEntry ''out/f_1.vtk'', DirEntry ''out/f_2.vtk'', DirEntry ''out/f_10.vtk'']"
  have h1: "path_exists ?E ''out''" by (simp add: demo_env_def)
  have h2: "dir_names ?E ''out'' = Inr [''f_10.vtk'', ''f_2.vtk'', ''f_1.vtk'']"
    by (simp add: demo_env_def)
  have h3: "fst (get_sorted_files ?E ''out'' ''.vtk'' ''_'' empty_world) = Inr ?out"
    by code_simp
  have k: "map (index_of ''_'') ?out = [1, 2, 10]" by code_simp
  have h1': "path_exists ?E' ''out''" by (simp add: demo_env_def)
  have h2': "dir_names ?E' ''out'' = Inr [''f_1.vtk'', ''f_10.vtk'', ''f_2.vtk'']"
    by (simp add: demo_env_def)
  have p: "mset [''f_1.vtk'', ''f_10.vtk'', ''f_2.vtk''] = mset [''f_10.vtk'', ''f_2.vtk'', ''f_1.vtk'']"
    by simp
  have d: "distinct (map (index_of ''_'') ?out)" by (simp only: k) simp
  from get_sorted_files_ascending [OF h1 h2 h3] d
  have s: "sorted_wrt (<) (map (index_of ''_'') ?out)"
    and a: "\<forall>en' names' w'. path_exists en' ''out'' \<longrightarrow> dir_names en' ''out'' = Inr names' \<longrightarrow>
              mset names' = mset [''f_10.vtk'', ''f_2.vtk'', ''f_1.vtk''] \<longrightarrow>
              fst (get_sorted_files en' ''out'' ''.vtk'' ''_'' w') = Inr ?out"
    by blast+
  from a h1' h2' p have "fst (get_sorted_files ?E' ''out'' ''.vtk'' ''_'' empty_world) = Inr ?out"
    by blast
  with h1 h3 k s show ?thesis by blast
qed

text \<open>
  Two files of equal index: the indices of the result do not ascend strictly, and the
  result follows the enumeration order.
\<close>

theorem get_sorted_files_ties_counterexample:
  "fst (get_sorted_files (demo_env [''a_1.vtk'', ''b_1.vtk''] (\<lambda>p. None)) ''out'' ''.vtk'' ''_''
          empty_world)
     = Inr [DirEntry ''out/a_1.vtk'', DirEntry ''out/b_1.vtk'']
   \<and> fst (get_sorted_files (demo_env [''b_1.vtk'', ''a_1.vtk''] (\<lambda>p. None)) ''out'' ''.vtk'' ''_''
          empty_world)
     = Inr [DirEntry ''out/b_1.vtk'', DirEntry ''out/a_1.vtk'']
   \<and> map (index_of ''_'') [DirEntry ''out/a_1.vtk'', DirEntry ''out/b_1.vtk''] = [1, 1]
   \<and> \<not> sorted_wrt (<)
         (map (index_of ''_'') [DirEntry ''out/a_1.vtk'', DirEntry ''out/b_1.vtk''])"
  by code_simp

lemma split_acc_not_Nil: "split_acc sep acc s \<noteq> []"
  by (induction sep acc s rule: split_acc.induct) auto

text \<open>Digits and white space beyond ASCII count, as they do for \<^verbatim>\<open>int\<close>: the
  Arabic-Indic digit three (bytes \<open>D9 A3\<close>) is the integer 3, a no-break space (bytes
  \<open>C2 A0\<close>) is dropped, and a file named with such a digit is sorted by it.\<close>

lemma py_int_beyond_ascii:
  "py_int [CHR 0xD9, CHR 0xA3] = Inr 3"
  "py_int [CHR 0xC2, CHR 0xA0, CHR ''5''] = Inr 5"
  "py_int [CHR 0xD9, CHR 0xA1, CHR ''_'', CHR 0xD9, CHR 0xA2] = Inr 12"
  "py_int [CHR 0xFF, CHR ''5''] = Inl ValueError"
  by code_simp+

lemma get_sorted_files_beyond_ascii:
  "fst (get_sorted_files
          (demo_env [''f_9.vtk'', ''f_'' @ [CHR 0xD9, CHR 0xA3] @ ''.vtk''] (\<lambda>p. None))
          ''out'' ''.vtk'' ''_'' empty_world)
     = Inr [DirEntry (''out/f_'' @ [CHR 0xD9, CHR 0xA3] @ ''.vtk''), DirEntry ''out/f_9.vtk'']"
  by code_simp

lemma py_int_error: "py_int s = Inl e \<Longrightarrow> e = ValueError"
  by (auto simp: py_int_def Let_def split: if_splits)

lemma get_alphanum_key_error: "get_alphanum_key tok file = Inl e \<Longrightarrow> e = ValueError"
  by (auto simp: get_alphanum_key_def py_split_def split_acc_not_Nil dest: py_int_error
      split: if_splits)

lemma sorted_by_fails:
  assumes "x \<in> set xs" "f x = Inl e" "\<And>y e'. f y = Inl e' \<Longrightarrow> e' = ValueError"
  shows "sorted_by f xs = Inl ValueError"
proof -
  obtain e' where e': "keys_of f xs = Inl e'"
    using keys_of_fails [of x xs f e] assms(1,2) by blast
  then obtain y where "f y = Inl e'" using keys_of_Inl by blast
  then have "e' = ValueError" by (rule assms(3))
  with e' show ?thesis by (simp add: sorted_by_def)
qed

text \<open>
  C2. When the directory has an entry with the suffix asked for whose stem does not end,
  after the last \<open>split_token\<close>, in an integer as \<^verbatim>\<open>int\<close> reads it, \<^verbatim>\<open>get_sorted_files\<close>
  raises \<^verbatim>\<open>ValueError\<close>: it returns no list, and the file is not skipped.
\<close>

theorem get_sorted_files_misnamed_file:
  assumes "path_exists en data_dir" and "dir_names en data_dir = Inr names"
    and "n \<in> set names" and "path_suffix (os_path_join data_dir n) = file_format"
    and "split_token \<noteq> []"
    and "\<forall>k. py_int (last (split_acc split_token [] (path_stem (os_path_join data_dir n)))) \<noteq> Inr k"
  shows "fst (get_sorted_files en data_dir file_format split_token w) = Inl ValueError"
proof -
  let ?file = "DirEntry (os_path_join data_dir n)"
  let ?files = "filter (\<lambda>file. path_suffix (path file) = file_format)
                  (map (\<lambda>n. DirEntry (os_path_join data_dir n)) names)"
  have mem: "?file \<in> set ?files" using assms(3,4) by simp
  obtain e where e: "get_alphanum_key split_token ?file = Inl e"
    using assms(5,6) by (cases "get_alphanum_key split_token ?file")
      (auto simp: get_alphanum_key_def py_split_def split_acc_not_Nil)
  have "sorted_by (get_alphanum_key split_token) ?files = Inl ValueError"
    using mem e get_alphanum_key_error
    by (rule sorted_by_fails [of ?file ?files "get_alphanum_key split_token" e])
  then show ?thesis
    using get_sorted_files_listing [OF assms(1,2), of file_format split_token w] by simp
qed

theorem get_sorted_files_misnamed_file_witness:
  "path_exists (demo_env [''f_1.vtk'', ''f_abc.vtk''] (\<lambda>p. None)) ''out''
   \<and> path_suffix (os_path_join ''out'' ''f_abc.vtk'') = ''.vtk''
   \<and> last (split_acc ''_'' [] (path_stem (os_path_join ''out'' ''f_abc.vtk''))) = ''abc''
   \<and> py_int ''abc'' = Inl ValueError
   \<and> fst (get_sorted_files (demo_env [''f_1.vtk'', ''f_abc.vtk''] (\<lambda>p. None)) ''out'' ''.vtk'' ''_''
          empty_world) = Inl ValueError"
proof -
  let ?E = "demo_env [''f_1.vtk'', ''f_abc.vtk''] (\<lambda>p. None)"
  have h1: "path_exists ?E ''out''" by (simp add: demo_env_def)
  have h2: "dir_names ?E ''out'' = Inr [''f_1.vtk'', ''f_abc.vtk'']" by (simp add: demo_env_def)
  have h3: "''f_abc.vtk'' \<in> set [''f_1.vtk'', ''f_abc.vtk'']" by simp
  have h4: "path_suffix (os_path_join ''out'' ''f_abc.vtk'') = ''.vtk''" by code_simp
  have h5: "''_'' \<noteq> []" by simp
  have seg: "last (split_acc ''_'' [] (path_stem (os_path_join ''out'' ''f_abc.vtk''))) = ''abc''"
    by code_simp
  have bad: "py_int ''abc'' = Inl ValueError" by code_simp
  have h6: "\<forall>k. py_int (last (split_acc ''_'' [] (path_stem (os_path_join ''out'' ''f_abc.vtk''))))
              \<noteq> Inr k"
    by (simp only: seg bad) simp
  from get_sorted_files_misnamed_file [OF h1 h2 h3 h4 h5 h6, of empty_world] h1 h4 seg bad
  show ?thesis by blast
qed


text \<open>
  C3. When the path does not exist, \<^verbatim>\<open>get_sorted_files\<close> raises \<^verbatim>\<open>IOError\<close>, and the only
  call it has made by then is the existence check: the directory is not listed.
\<close>

theorem get_sorted_files_missing_directory:
  assumes "\<not> path_exists en data_dir"
  shows "fst (get_sorted_files en data_dir file_format split_token w) = Inl IOError
       \<and> trace (snd (get_sorted_files en data_dir file_format split_token w))
           = trace w @ [Exists data_dir]"
  using assms by (simp add: get_sorted_files_def emit_def)

theorem get_sorted_files_missing_directory_witness:
  "\<not> path_exists (demo_env [''f_1.vtk''] (\<lambda>p. None)) ''missing''
   \<and> fst (get_sorted_files (demo_env [''f_1.vtk''] (\<lambda>p. None)) ''missing'' ''.vtk'' ''_'' empty_world)
       = Inl IOError
   \<and> trace (snd (get_sorted_files (demo_env [''f_1.vtk''] (\<lambda>p. None)) ''missing'' ''.vtk'' ''_''
         empty_world)) = [Exists ''missing'']"
proof -
  have h: "\<not> path_exists (demo_env [''f_1.vtk''] (\<lambda>p. None)) ''missing''"
    by (simp add: demo_env_def)
  show ?thesis
    using h get_sorted_files_missing_directory [OF h, of "''.vtk''" "''_''" empty_world]
    by (simp add: empty_world_def)
qed

section \<open>Properties of \<^verbatim>\<open>create_movie_from_vtk\<close>\<close>

subsection \<open>Rounding\<close>

text \<open>\<open>py_round_div a b\<close> is an integer nearest to the quotient \<open>a / b\<close>, and an even
  one when the quotient lies half way between two integers.\<close>

lemma py_round_div_nearest:
  assumes "b \<noteq> 0"
  shows "\<bar>real_of_int (py_round_div a b) - real_of_int a / real_of_int b\<bar> \<le> 1 / 2"
proof -
  define q where "q = a div b"
  define r where "r = a mod b"
  define f where "f = real_of_int r / real_of_int b"
  have a: "a = q * b + r" by (simp add: q_def r_def)
  have rb: "\<bar>r\<bar> < \<bar>b\<bar>" using assms by (simp add: r_def abs_mod_less)
  have sg: "(0 \<le> r \<and> 0 < b) \<or> (r \<le> 0 \<and> b < 0)"
    using assms by (cases "0 < b") (simp_all add: r_def pos_mod_sign neg_mod_sign)
  have frac: "real_of_int a / real_of_int b = real_of_int q + f"
    using assms by (simp add: a f_def field_simps)
  have f0: "0 \<le> f" using sg by (auto simp: f_def zero_le_divide_iff)
  have "\<bar>f\<bar> = \<bar>real_of_int r\<bar> / \<bar>real_of_int b\<bar>"
    unfolding f_def by (rule abs_divide)
  moreover have "\<bar>f\<bar> = f" using f0 by simp
  ultimately have fabs: "f = real_of_int \<bar>r\<bar> / real_of_int \<bar>b\<bar>"
    by (simp only: of_int_abs)
  have bpos: "0 < real_of_int \<bar>b\<bar>" using assms by simp
  have f1: "f < 1" using rb bpos unfolding fabs by (simp add: divide_less_eq)
  consider (lo) "2 * \<bar>r\<bar> < \<bar>b\<bar>" | (hi) "\<bar>b\<bar> < 2 * \<bar>r\<bar>" | (tie) "2 * \<bar>r\<bar> = \<bar>b\<bar>"
    by linarith
  then show ?thesis
  proof cases
    case lo
    then have "py_round_div a b = q" by (simp add: py_round_div_def q_def r_def Let_def)
    moreover have "real_of_int (2 * \<bar>r\<bar>) < real_of_int \<bar>b\<bar>" using lo by (simp only: of_int_less_iff)
    then have "f \<le> 1 / 2" using bpos unfolding fabs by (simp add: field_simps)
    ultimately show ?thesis using frac f0 by simp
  next
    case hi
    then have "py_round_div a b = q + 1" by (simp add: py_round_div_def q_def r_def Let_def)
    moreover have "real_of_int \<bar>b\<bar> < real_of_int (2 * \<bar>r\<bar>)" using hi by (simp only: of_int_less_iff)
    then have "1 / 2 \<le> f" using bpos unfolding fabs by (simp add: field_simps)
    ultimately show ?thesis using frac f1 by simp
  next
    case tie
    then have "real_of_int (2 * \<bar>r\<bar>) = real_of_int \<bar>b\<bar>" by simp
    then have h: "f = 1 / 2" using bpos unfolding fabs by (simp add: field_simps)
    have "py_round_div a b = q \<or> py_round_div a b = q + 1"
      by (simp add: py_round_div_def q_def r_def Let_def)
    then show ?thesis using frac h by auto
  qed
qed

lemma py_round_div_tie_even:
  assumes "b \<noteq> 0" and "2 * \<bar>a mod b\<bar> = \<bar>b\<bar>"
  shows "even (py_round_div a b)"
  using assms by (simp add: py_round_div_def Let_def)

subsection \<open>Successful runs\<close>

lemma selected_Cons:
  "selected rate (x # xs) = (if sample_test rate (fst x) = Inr True then x # selected rate xs else selected rate xs)"
  by (simp add: selected_def)

lemma selected_Nil: "selected rate [] = []"
  by (simp add: selected_def)

lemma frame_loop_success:
  "frame_loop en d rate tmp xs frames w = (Inr frames', w') \<Longrightarrow>
     frames' = frames @ map (\<lambda>x. os_path_join tmp (image_frame_name (fst x))) (selected rate xs)
   \<and> trace w' = trace w @ concat (map (frame_events d tmp) (selected rate xs))
   \<and> plotter_open w' = plotter_open w"
proof (induction xs arbitrary: frames w)
  case Nil
  then show ?case by (simp add: selected_Nil)
next
  case (Cons x xs)
  obtain index frame_file where x: "x = (index, frame_file)" by (cases x)
  show ?case
  proof (cases "sample_test rate index")
    case (Inl e)
    with Cons.prems x show ?thesis by simp
  next
    case (Inr b)
    show ?thesis
    proof (cases b)
      case False
      with Inr Cons.prems x have "frame_loop en d rate tmp xs frames w = (Inr frames', w')" by simp
      from Cons.IH [OF this] Inr False x show ?thesis by (simp add: selected_Cons)
    next
      case True
      let ?fp = "os_path_join d (path frame_file)"
      let ?ip = "os_path_join tmp (image_frame_name index)"
      let ?w3 = "emit (Screenshot ?ip) ((emit (AddMesh ?fp) (emit (PvRead ?fp) w))\<lparr>tmp_files := tmp_files (emit (AddMesh ?fp) (emit (PvRead ?fp) w)) @ [?ip]\<rparr>)"
      from Inr True Cons.prems x
      have "frame_loop en d rate tmp xs (frames @ [?ip]) ?w3 = (Inr frames', w')"
        by (auto simp: call_def take_screenshot_def Let_def split: option.splits)
      from Cons.IH [OF this] Inr True x show ?thesis
        by (simp add: selected_Cons frame_events_def emit_def)
    qed
  qed
qed

lemma bind_Inr_iff:
  "bind m f w = (Inr y, w') \<longleftrightarrow> (\<exists>x w1. m w = (Inr x, w1) \<and> f x w1 = (Inr y, w'))"
  by (auto simp: bind_def split: prod.splits sum.splits)

lemma call_Inr_iff: "call ev ans w = (Inr x, w') \<longleftrightarrow> ans = None \<and> w' = emit ev w"
  by (auto simp: call_def split: option.splits)

lemma open_plotter_Inr_iff:
  "open_plotter en w = (Inr x, w') \<longleftrightarrow>
     new_plotter en = None \<and> w' = (emit NewPlotter w)\<lparr>plotter_open := True\<rparr>"
  by (auto simp: open_plotter_def call_def split: option.splits)

lemma close_plotter_Inr_iff:
  "close_plotter en w = (Inr x, w') \<longleftrightarrow>
     plotter_close en = None \<and> w' = (emit PlotterClose w)\<lparr>plotter_open := False\<rparr>"
  by (auto simp: close_plotter_def call_def split: option.splits)

lemma with_temporary_directory_Inr_iff:
  "with_temporary_directory en body w = (Inr x, w') \<longleftrightarrow>
     (\<exists>d w2. mkdtemp en = Inr d
        \<and> body d ((emit MkDTemp w)\<lparr>tmp_dirs := tmp_dirs w @ [d]\<rparr>) = (Inr x, w2)
        \<and> w' = cleanup d w2)"
  by (auto simp: with_temporary_directory_def split: sum.splits prod.splits)

lemma get_sorted_files_fst:
  "fst (get_sorted_files en d fmt tok w) = fst (get_sorted_files en d fmt tok w0)"
  by (simp add: get_sorted_files_def Let_def split: sum.splits)

lemma get_sorted_files_Inr_iff:
  "get_sorted_files en d fmt tok w = (Inr files, w') \<longleftrightarrow>
     fst (get_sorted_files en d fmt tok w0) = Inr files
     \<and> w' = emit (Scandir d) (emit (Exists d) w)"
  by (auto simp: get_sorted_files_def Let_def split: sum.splits)

lemma create_movie_success:
  assumes "create_movie_from_vtk en a w = (Inr (), w')"
  shows "\<exists>files tmp.
      fst (get_sorted_files en (vtk_output_dir a) ''.vtk'' ''_'' w) = Inr files
    \<and> mkdtemp en = Inr tmp
    \<and> trace w' = trace w @ (if virtual_display a then [StartXvfb] else [])
        @ [SetBackground ''white'', Exists (vtk_output_dir a), Scandir (vtk_output_dir a),
           NewPlotter, SetCamera, MkDTemp]
        @ concat (map (frame_events (vtk_output_dir a) tmp)
            (selected (fps a) (zip [0..<length files] files)))
        @ [PlotterClose,
           ImageSequenceClip
             (map (\<lambda>x. os_path_join tmp (image_frame_name (fst x)))
                (selected (fps a) (zip [0..<length files] files))) (fps a),
           WriteVideofile (movie_path a), Cleanup tmp]
    \<and> \<not> plotter_open w'"
proof -
  from assms obtain w1 files tmp frames w6 where
    x: "(if virtual_display a then call StartXvfb (start_xvfb en) else (\<lambda>w. (Inr (), w))) w = (Inr (), w1)"
    and f: "fst (get_sorted_files en (vtk_output_dir a) ''.vtk'' ''_'' w) = Inr files"
    and t: "mkdtemp en = Inr tmp"
    and l: "frame_loop en (vtk_output_dir a) (fps a) tmp (zip [0..<length files] files) []
             ((emit MkDTemp (emit SetCamera ((emit NewPlotter (emit (Scandir (vtk_output_dir a))
                (emit (Exists (vtk_output_dir a)) (emit (SetBackground ''white'') w1))))\<lparr>plotter_open := True\<rparr>)))
              \<lparr>tmp_dirs := tmp_dirs (emit SetCamera ((emit NewPlotter (emit (Scandir (vtk_output_dir a))
                (emit (Exists (vtk_output_dir a)) (emit (SetBackground ''white'') w1))))\<lparr>plotter_open := True\<rparr>)) @ [tmp]\<rparr>)
             = (Inr frames, w6)"
    and e: "w' = cleanup tmp (emit (WriteVideofile (movie_path a))
              (emit (ImageSequenceClip frames (fps a))
                 ((emit PlotterClose w6)\<lparr>plotter_open := False\<rparr>)))"
    unfolding create_movie_from_vtk_def bind_Inr_iff call_Inr_iff open_plotter_Inr_iff
      close_plotter_Inr_iff with_temporary_directory_Inr_iff
      get_sorted_files_Inr_iff [where ?w0.0 = w]
    by auto
  have t1: "trace w1 = trace w @ (if virtual_display a then [StartXvfb] else [])"
    using x by (auto simp: call_def emit_def split: if_splits option.splits)
  from frame_loop_success [OF l] t1 e f t show ?thesis
    by (simp add: emit_def cleanup_def)
qed

lemma zip_upt_nth: "zip [0..<length fs] fs = map (\<lambda>p. (p, fs ! p)) [0..<length fs]"
  by (rule nth_equalityI) simp_all

lemma selected_zip:
  "selected rate (zip [0..<length fs] fs) = map (\<lambda>p. (p, fs ! p)) (sampled rate (length fs))"
proof -
  have "selected rate (zip [0..<length fs] fs)
      = filter (\<lambda>x. sample_test rate (fst x) = Inr True) (map (\<lambda>p. (p, fs ! p)) [0..<length fs])"
    unfolding selected_def using zip_upt_nth [of fs] by (rule arg_cong)
  also have "\<dots> = map (\<lambda>p. (p, fs ! p)) (filter (\<lambda>p. sample_test rate p = Inr True) [0..<length fs])"
    unfolding filter_map by (simp add: comp_def)
  finally show ?thesis unfolding sampled_def .
qed

lemma reads_append: "reads (xs @ ys) = reads xs @ reads ys"
  by (simp add: reads_def)

lemma screenshots_append: "screenshots (xs @ ys) = screenshots xs @ screenshots ys"
  by (simp add: screenshots_def)

lemma reads_frame_events:
  "reads (concat (map (frame_events d tmp) xs)) = map (\<lambda>x. os_path_join d (path (snd x))) xs"
  by (induction xs) (simp_all add: reads_def frame_events_def)

lemma screenshots_frame_events:
  "screenshots (concat (map (frame_events d tmp) xs))
     = map (\<lambda>x. os_path_join tmp (image_frame_name (fst x))) xs"
  by (induction xs) (simp_all add: screenshots_def frame_events_def)

lemma encoder_frame_events:
  "filter is_encoder_call (concat (map (frame_events d tmp) xs)) = []"
  by (induction xs) (simp_all add: is_encoder_call_def frame_events_def)

lemma encoder_append:
  "filter is_encoder_call (xs @ ys) = filter is_encoder_call xs @ filter is_encoder_call ys"
  by simp

lemma sample_test_stride:
  "rate \<noteq> 0 \<Longrightarrow> py_round_div 60 rate \<noteq> 0 \<Longrightarrow>
   sample_test rate p = Inr (int p mod py_round_div 60 rate = 0)"
  by (simp add: sample_test_def stride_def)

lemma sampled_stride:
  "rate \<noteq> 0 \<Longrightarrow> py_round_div 60 rate \<noteq> 0 \<Longrightarrow>
   sampled rate n = filter (\<lambda>p. int p mod py_round_div 60 rate = 0) [0..<n]"
  by (simp add: sampled_def sample_test_stride)

lemma sorted_sampled: "sorted_wrt (<) (sampled rate n)"
  unfolding sampled_def by (rule sorted_wrt_filter) (simp add: sorted_wrt_upt)

subsection \<open>Runs in a given environment\<close>

lemma frame_loop_runs:
  assumes "\<forall>p. pv_read en p = None" and "\<forall>p. add_mesh en p = None"
    and "\<forall>p. screenshot en p = None"
    and "\<forall>x\<in>set xs. \<exists>b. sample_test rate (fst x) = Inr b"
  shows "\<exists>frames' w'. frame_loop en d rate tmp xs frames w = (Inr frames', w')"
  using assms(4)
proof (induction xs arbitrary: frames w)
  case Nil
  then show ?case by simp
next
  case (Cons x xs)
  obtain index frame_file where x: "x = (index, frame_file)" by (cases x)
  from Cons.prems x obtain b where b: "sample_test rate index = Inr b" by auto
  from Cons.prems have rest: "\<forall>x\<in>set xs. \<exists>b. sample_test rate (fst x) = Inr b" by simp
  show ?case
    using Cons.IH [OF rest] assms(1,2,3) b x
    by (cases b) (simp_all add: call_def take_screenshot_def Let_def)
qed

lemma create_movie_runs:
  assumes "virtual_display a \<longrightarrow> start_xvfb en = None"
    and "fst (get_sorted_files en (vtk_output_dir a) ''.vtk'' ''_'' w) = Inr vtk_files"
    and "new_plotter en = None" and "set_camera en = None" and "mkdtemp en = Inr tmp_dir"
    and "\<forall>p. pv_read en p = None" and "\<forall>p. add_mesh en p = None"
    and "\<forall>p. screenshot en p = None" and "plotter_close en = None"
    and "\<forall>frames n. make_clip en frames n = None" and "\<forall>p. write_videofile en p = None"
    and "fps a \<noteq> 0" and "py_round_div 60 (fps a) \<noteq> 0"
  shows "fst (create_movie_from_vtk en a w) = Inr ()"
proof -
  let ?d = "vtk_output_dir a"
  have g: "\<And>w1. get_sorted_files en ?d ''.vtk'' ''_'' w1
      = (Inr vtk_files, emit (Scandir ?d) (emit (Exists ?d) w1))"
    using assms(2) by (simp add: get_sorted_files_Inr_iff [where ?w0.0 = w])
  have st: "\<forall>x\<in>set (zip [0..<length vtk_files] vtk_files). \<exists>b. sample_test (fps a) (fst x) = Inr b"
    using assms(12,13) by (simp add: sample_test_stride)
  have l: "\<And>w1. \<exists>frames' w'. frame_loop en ?d (fps a) tmp_dir (zip [0..<length vtk_files] vtk_files) [] w1
      = (Inr frames', w')"
    using frame_loop_runs [OF assms(6,7,8) st] by blast
  show ?thesis
  proof (cases "virtual_display a")
    case True
    obtain frames' w' where "frame_loop en ?d (fps a) tmp_dir (zip [0..<length vtk_files] vtk_files) []
       ((emit MkDTemp (emit SetCamera ((emit NewPlotter (emit (Scandir ?d)
                (emit (Exists ?d) (emit (SetBackground ''white'') (emit StartXvfb w)))))\<lparr>plotter_open := True\<rparr>)))
              \<lparr>tmp_dirs := tmp_dirs w @ [tmp_dir]\<rparr>) = (Inr frames', w')"
      using l by blast
    then show ?thesis
      using True assms(1,3,4,5,9,10,11)
      by (simp add: create_movie_from_vtk_def bind_def call_def g open_plotter_def
          close_plotter_def with_temporary_directory_def emit_def)
  next
    case False
    obtain frames' w' where "frame_loop en ?d (fps a) tmp_dir (zip [0..<length vtk_files] vtk_files) []
       ((emit MkDTemp (emit SetCamera ((emit NewPlotter (emit (Scandir ?d)
                (emit (Exists ?d) (emit (SetBackground ''white'') w))))\<lparr>plotter_open := True\<rparr>)))
              \<lparr>tmp_dirs := tmp_dirs w @ [tmp_dir]\<rparr>) = (Inr frames', w')"
      using l by blast
    then show ?thesis
      using False assms(1,3,4,5,9,10,11)
      by (simp add: create_movie_from_vtk_def bind_def call_def g open_plotter_def
          close_plotter_def with_temporary_directory_def emit_def)
  qed
qed

lemma frame_loop_first_read_raises:
  assumes "xs \<noteq> []" and "sample_test rate (fst (hd xs)) = Inr True"
    and "pv_read en (os_path_join d (path (snd (hd xs)))) = Some e"
  shows "frame_loop en d rate tmp xs frames w
       = (Inl e, emit (PvRead (os_path_join d (path (snd (hd xs))))) w)"
  using assms by (cases xs) (auto simp: call_def Let_def)

lemma create_movie_first_read_raises:
  assumes "virtual_display a \<longrightarrow> start_xvfb en = None"
    and "fst (get_sorted_files en (vtk_output_dir a) ''.vtk'' ''_'' w) = Inr vtk_files"
    and "vtk_files \<noteq> []"
    and "new_plotter en = None" and "set_camera en = None" and "mkdtemp en = Inr tmp_dir"
    and "fps a \<noteq> 0" and "py_round_div 60 (fps a) \<noteq> 0"
    and "pv_read en (os_path_join (vtk_output_dir a) (path (hd vtk_files))) = Some e"
  shows "create_movie_from_vtk en a w
      = (Inl e,
         w\<lparr>trace := trace w @ (if virtual_display a then [StartXvfb] else [])
             @ [SetBackground ''white'', Exists (vtk_output_dir a), Scandir (vtk_output_dir a),
                NewPlotter, SetCamera, MkDTemp,
                PvRead (os_path_join (vtk_output_dir a) (path (hd vtk_files))), Cleanup tmp_dir],
           plotter_open := True,
           tmp_dirs := removeAll tmp_dir (tmp_dirs w @ [tmp_dir]),
           tmp_files := filter (\<lambda>p. \<not> inside tmp_dir p) (tmp_files w)\<rparr>)"
proof -
  let ?d = "vtk_output_dir a"
  let ?xs = "zip [0..<length vtk_files] vtk_files"
  have g: "\<And>w1. get_sorted_files en ?d ''.vtk'' ''_'' w1
      = (Inr vtk_files, emit (Scandir ?d) (emit (Exists ?d) w1))"
    using assms(2) by (simp add: get_sorted_files_Inr_iff [where ?w0.0 = w])
  have ne: "?xs \<noteq> []" using assms(3) by simp
  have hd: "hd ?xs = (0, hd vtk_files)"
    using assms(3) by (cases vtk_files) (simp_all add: upt_rec)
  have t: "sample_test (fps a) (fst (hd ?xs)) = Inr True"
    using assms(7,8) by (simp add: hd sample_test_stride)
  have l: "\<And>w1. frame_loop en ?d (fps a) tmp_dir ?xs [] w1
      = (Inl e, emit (PvRead (os_path_join ?d (path (hd vtk_files)))) w1)"
    using frame_loop_first_read_raises [OF ne t] assms(9) by (simp add: hd)
  show ?thesis
    using assms(1,4,5,6)
    by (simp add: create_movie_from_vtk_def bind_def call_def g l open_plotter_def
        with_temporary_directory_def cleanup_def emit_def)
qed

lemma demo_sorted_three:
  "fst (get_sorted_files (demo_env [''f_10.vtk'', ''f_2.vtk'', ''f_1.vtk''] rd) ''out'' ''.vtk'' ''_'' w)
     = Inr [DirEntry ''out/f_1.vtk'', DirEntry ''out/f_2.vtk'', DirEntry ''out/f_10.vtk'']"
proof -
  have "sorted_by (get_alphanum_key ''_'')
          (filter (\<lambda>file. path_suffix (path file) = ''.vtk'')
             (map (\<lambda>n. DirEntry (os_path_join ''out'' n)) [''f_10.vtk'', ''f_2.vtk'', ''f_1.vtk'']))
        = Inr [DirEntry ''out/f_1.vtk'', DirEntry ''out/f_2.vtk'', DirEntry ''out/f_10.vtk'']"
    by code_simp
  then show ?thesis
    by (simp add: get_sorted_files_listing [where names = "[''f_10.vtk'', ''f_2.vtk'', ''f_1.vtk'']"]
        demo_env_def)
qed

lemma demo_run_three:
  "fst (create_movie_from_vtk (demo_env [''f_10.vtk'', ''f_2.vtk'', ''f_1.vtk''] (\<lambda>p. None))
          (demo_args 40) empty_world) = Inr ()"
  by (rule create_movie_runs
        [where vtk_files = "[DirEntry ''out/f_1.vtk'', DirEntry ''out/f_2.vtk'', DirEntry ''out/f_10.vtk'']"
           and tmp_dir = "''/tmp/tmpq1''"])
     (simp_all add: demo_sorted_three demo_args_def py_round_div_def, simp_all add: demo_env_def)

lemma demo_sorted_one:
  "fst (get_sorted_files (demo_env [''f_0.vtk''] rd) ''out'' ''.vtk'' ''_'' w)
     = Inr [DirEntry ''out/f_0.vtk'']"
proof -
  have "sorted_by (get_alphanum_key ''_'')
          (filter (\<lambda>file. path_suffix (path file) = ''.vtk'')
             (map (\<lambda>n. DirEntry (os_path_join ''out'' n)) [''f_0.vtk'']))
        = Inr [DirEntry ''out/f_0.vtk'']"
    by code_simp
  then show ?thesis
    by (simp add: get_sorted_files_listing [where names = "[''f_0.vtk'']"] demo_env_def)
qed

subsection \<open>Sampling by stride\<close>

text \<open>
  C4. For a positive frame rate whose stride \<^verbatim>\<open>round(60 / fps)\<close> is at least 1, a run
  that succeeds reads and renders exactly the files at the positions \<open>p\<close> of the sorted
  list with \<open>p mod stride = 0\<close>, in that order. For \<open>fps = 10\<close> the stride is 6 and of
  100 files the 17 at positions 0, 6, \<dots>, 96 are rendered; for \<open>fps = 60\<close> the stride is 1
  and every file is rendered.
\<close>

theorem render_samples_by_stride:
  assumes "0 < fps a" and "1 \<le> py_round_div 60 (fps a)"
    and "create_movie_from_vtk en a w = (Inr (), w')"
    and "fst (get_sorted_files en (vtk_output_dir a) ''.vtk'' ''_'' w) = Inr vtk_files"
  shows "stride (fps a) = Inr (py_round_div 60 (fps a))
       \<and> reads (trace w') = reads (trace w)
            @ map (\<lambda>p. os_path_join (vtk_output_dir a) (path (vtk_files ! p)))
                (filter (\<lambda>p. int p mod py_round_div 60 (fps a) = 0) [0..<length vtk_files])
       \<and> (\<exists>tmp_dir. mkdtemp en = Inr tmp_dir
            \<and> screenshots (trace w') = screenshots (trace w)
                 @ map (\<lambda>p. os_path_join tmp_dir (image_frame_name p))
                     (filter (\<lambda>p. int p mod py_round_div 60 (fps a) = 0) [0..<length vtk_files]))
       \<and> stride 10 = Inr 6
       \<and> filter (\<lambda>p. int p mod 6 = 0) [0..<100]
            = [0, 6, 12, 18, 24, 30, 36, 42, 48, 54, 60, 66, 72, 78, 84, 90, 96]
       \<and> length (filter (\<lambda>p. int p mod 6 = 0) [0..<100]) = 17
       \<and> stride 60 = Inr 1
       \<and> filter (\<lambda>p. int p mod 1 = 0) [0..<length vtk_files] = [0..<length vtk_files]"
proof -
  from create_movie_success [OF assms(3)] assms(4) obtain tmp where
    t: "mkdtemp en = Inr tmp"
    and tr: "trace w' = trace w @ (if virtual_display a then [StartXvfb] else [])
        @ [SetBackground ''white'', Exists (vtk_output_dir a), Scandir (vtk_output_dir a),
           NewPlotter, SetCamera, MkDTemp]
        @ concat (map (frame_events (vtk_output_dir a) tmp)
            (selected (fps a) (zip [0..<length vtk_files] vtk_files)))
        @ [PlotterClose,
           ImageSequenceClip
             (map (\<lambda>x. os_path_join tmp (image_frame_name (fst x)))
                (selected (fps a) (zip [0..<length vtk_files] vtk_files))) (fps a),
           WriteVideofile (movie_path a), Cleanup tmp]"
    by auto
  have s: "sampled (fps a) (length vtk_files)
      = filter (\<lambda>p. int p mod py_round_div 60 (fps a) = 0) [0..<length vtk_files]"
    using assms(1,2) by (simp add: sampled_stride)
  have r: "reads (trace w') = reads (trace w)
            @ map (\<lambda>p. os_path_join (vtk_output_dir a) (path (vtk_files ! p)))
                (filter (\<lambda>p. int p mod py_round_div 60 (fps a) = 0) [0..<length vtk_files])"
    unfolding tr reads_append reads_frame_events selected_zip s
    by (simp add: reads_def comp_def)
  have sc: "screenshots (trace w') = screenshots (trace w)
                 @ map (\<lambda>p. os_path_join tmp (image_frame_name p))
                     (filter (\<lambda>p. int p mod py_round_div 60 (fps a) = 0) [0..<length vtk_files])"
    unfolding tr screenshots_append screenshots_frame_events selected_zip s
    by (simp add: screenshots_def comp_def)
  have st: "stride (fps a) = Inr (py_round_div 60 (fps a))"
    using assms(1) by (simp add: stride_def)
  have c1: "stride 10 = Inr 6" by (simp add: stride_def py_round_div_def)
  have c2: "filter (\<lambda>p. int p mod 6 = 0) [0..<100]
            = [0, 6, 12, 18, 24, 30, 36, 42, 48, 54, 60, 66, 72, 78, 84, 90, 96]"
    by code_simp
  have c3: "length (filter (\<lambda>p. int p mod 6 = 0) [0..<100]) = 17"
    by (simp only: c2) simp
  have c4: "stride 60 = Inr 1" by (simp add: stride_def py_round_div_def)
  have c5: "filter (\<lambda>p. int p mod 1 = 0) [0..<length vtk_files] = [0..<length vtk_files]"
    by simp
  from st r t sc c1 c2 c3 c4 c5 show ?thesis by blast
qed

theorem render_samples_by_stride_witness:
  "0 < fps (demo_args 40)
   \<and> py_round_div 60 (fps (demo_args 40)) = 2
   \<and> fst (create_movie_from_vtk (demo_env [''f_10.vtk'', ''f_2.vtk'', ''f_1.vtk''] (\<lambda>p. None))
          (demo_args 40) empty_world) = Inr ()
   \<and> fst (get_sorted_files (demo_env [''f_10.vtk'', ''f_2.vtk'', ''f_1.vtk''] (\<lambda>p. None))
          ''out'' ''.vtk'' ''_'' empty_world)
       = Inr [DirEntry ''out/f_1.vtk'', DirEntry ''out/f_2.vtk'', DirEntry ''out/f_10.vtk'']
   \<and> reads (trace (snd (create_movie_from_vtk
          (demo_env [''f_10.vtk'', ''f_2.vtk'', ''f_1.vtk''] (\<lambda>p. None)) (demo_args 40) empty_world)))
       = [''out/out/f_1.vtk'', ''out/out/f_10.vtk'']"
proof -
  let ?E = "demo_env [''f_10.vtk'', ''f_2.vtk'', ''f_1.vtk''] (\<lambda>p. None)"
  let ?fs = "[DirEntry ''out/f_1.vtk'', DirEntry ''out/f_2.vtk'', DirEntry ''out/f_10.vtk'']"
  let ?w' = "snd (create_movie_from_vtk ?E (demo_args 40) empty_world)"
  have h1: "0 < fps (demo_args 40)" by (simp add: demo_args_def)
  have r: "py_round_div 60 (fps (demo_args 40)) = 2" by (simp add: demo_args_def py_round_div_def)
  have h2: "1 \<le> py_round_div 60 (fps (demo_args 40))" using r by simp
  have ok: "fst (create_movie_from_vtk ?E (demo_args 40) empty_world) = Inr ()"
    by (rule demo_run_three)
  then have h3: "create_movie_from_vtk ?E (demo_args 40) empty_world = (Inr (), ?w')"
    by (metis prod.collapse)
  have d: "vtk_output_dir (demo_args 40) = ''out''" by (simp add: demo_args_def)
  have g: "fst (get_sorted_files ?E ''out'' ''.vtk'' ''_'' empty_world) = Inr ?fs"
    by (rule demo_sorted_three)
  then have h4: "fst (get_sorted_files ?E (vtk_output_dir (demo_args 40)) ''.vtk'' ''_'' empty_world)
      = Inr ?fs" by (simp only: d)
  have sel: "filter (\<lambda>p. int p mod 2 = 0) [0..<length ?fs] = [0, 2]" by code_simp
  have j: "os_path_join ''out'' ''out/f_1.vtk'' = ''out/out/f_1.vtk''"
    "os_path_join ''out'' ''out/f_10.vtk'' = ''out/out/f_10.vtk''" by code_simp+
  from render_samples_by_stride [OF h1 h2 h3 h4]
  have "reads (trace ?w') = reads (trace empty_world)
            @ map (\<lambda>p. os_path_join (vtk_output_dir (demo_args 40)) (path (?fs ! p)))
                (filter (\<lambda>p. int p mod py_round_div 60 (fps (demo_args 40)) = 0) [0..<length ?fs])"
    by blast
  then have "reads (trace ?w') = [''out/out/f_1.vtk'', ''out/out/f_10.vtk'']"
    unfolding r d sel by (simp add: empty_world_def reads_def j)
  with h1 r ok g show ?thesis by blast
qed

subsection \<open>The plotter\<close>

text \<open>
  C5. The plotter is closed by \<^verbatim>\<open>plt.close()\<close> after the loop only. Here the directory
  holds one file and reading its mesh raises: the exception leaves the call with the
  plotter still open, and \<^verbatim>\<open>plt.close()\<close> is never called.
\<close>

theorem plotter_left_open_when_read_fails:
  "fst (create_movie_from_vtk
          (demo_env [''f_0.vtk''] (\<lambda>p. Some (CollaboratorError ''unreadable'')))
          (demo_args 60) empty_world) = Inl (CollaboratorError ''unreadable'')
   \<and> plotter_open (snd (create_movie_from_vtk
          (demo_env [''f_0.vtk''] (\<lambda>p. Some (CollaboratorError ''unreadable'')))
          (demo_args 60) empty_world))
   \<and> trace (snd (create_movie_from_vtk
          (demo_env [''f_0.vtk''] (\<lambda>p. Some (CollaboratorError ''unreadable'')))
          (demo_args 60) empty_world))
      = [StartXvfb, SetBackground ''white'', Exists ''out'', Scandir ''out'', NewPlotter,
         SetCamera, MkDTemp, PvRead ''out/out/f_0.vtk'', Cleanup ''/tmp/tmpq1'']"
proof -
  let ?E = "demo_env [''f_0.vtk''] (\<lambda>p. Some (CollaboratorError ''unreadable''))"
  have j: "os_path_join ''out'' ''out/f_0.vtk'' = ''out/out/f_0.vtk''" by code_simp
  have "create_movie_from_vtk ?E (demo_args 60) empty_world
      = (Inl (CollaboratorError ''unreadable''),
         empty_world\<lparr>trace := trace empty_world @ (if virtual_display (demo_args 60) then [StartXvfb] else [])
             @ [SetBackground ''white'', Exists (vtk_output_dir (demo_args 60)),
                Scandir (vtk_output_dir (demo_args 60)), NewPlotter, SetCamera, MkDTemp,
                PvRead (os_path_join (vtk_output_dir (demo_args 60)) (path (hd [DirEntry ''out/f_0.vtk'']))),
                Cleanup ''/tmp/tmpq1''],
           plotter_open := True,
           tmp_dirs := removeAll ''/tmp/tmpq1'' (tmp_dirs empty_world @ [''/tmp/tmpq1'']),
           tmp_files := filter (\<lambda>p. \<not> inside ''/tmp/tmpq1'' p) (tmp_files empty_world)\<rparr>)"
    by (rule create_movie_first_read_raises)
       (simp_all add: demo_sorted_one demo_args_def py_round_div_def, simp_all add: demo_env_def)
  then show ?thesis
    by (simp add: demo_args_def empty_world_def j)
qed

subsection \<open>Temporary files\<close>

lemma os_path_join_inside:
  "name \<noteq> [] \<Longrightarrow> hd name \<noteq> CHR ''/'' \<Longrightarrow> inside d (os_path_join d name)"
  by (simp add: inside_def os_path_join_def)

lemma image_frame_name_inside: "inside d (os_path_join d (image_frame_name i))"
  by (rule os_path_join_inside) (simp_all add: image_frame_name_def)

lemma frame_loop_files:
  "frame_loop en d rate tmp xs frames w = (r, w') \<Longrightarrow>
     tmp_dirs w' = tmp_dirs w
   \<and> (\<exists>ps. tmp_files w' = tmp_files w @ ps \<and> (\<forall>p\<in>set ps. inside tmp p))"
proof (induction xs arbitrary: frames w)
  case Nil
  then show ?case by simp
next
  case (Cons x xs)
  obtain index frame_file where x: "x = (index, frame_file)" by (cases x)
  show ?case
  proof (cases "sample_test rate index")
    case (Inl e)
    with Cons.prems x show ?thesis by simp
  next
    case (Inr b)
    show ?thesis
    proof (cases b)
      case False
      with Inr Cons.prems x have "frame_loop en d rate tmp xs frames w = (r, w')" by simp
      from Cons.IH [OF this] show ?thesis .
    next
      case True
      let ?fp = "os_path_join d (path frame_file)"
      let ?ip = "os_path_join tmp (image_frame_name index)"
      let ?w2 = "emit (AddMesh ?fp) (emit (PvRead ?fp) w)"
      let ?w3 = "emit (Screenshot ?ip) (?w2\<lparr>tmp_files := tmp_files ?w2 @ [?ip]\<rparr>)"
      consider (stop) "tmp_dirs w' = tmp_dirs w" "tmp_files w' = tmp_files w \<or> tmp_files w' = tmp_files w @ [?ip]"
        | (go) "frame_loop en d rate tmp xs (frames @ [?ip]) ?w3 = (r, w')"
        using Inr True Cons.prems x
        by (auto simp: call_def take_screenshot_def Let_def emit_def split: option.splits)
      then show ?thesis
      proof cases
        case stop
        then show ?thesis using image_frame_name_inside [of tmp index] by auto
      next
        case go
        from Cons.IH [OF go] obtain ps where
          "tmp_dirs w' = tmp_dirs w" "tmp_files w' = tmp_files w @ ?ip # ps" "\<forall>p\<in>set ps. inside tmp p"
          by (auto simp: emit_def)
        then show ?thesis using image_frame_name_inside [of tmp index] by auto
      qed
    qed
  qed
qed

lemma keeps_tmp_fills: "keeps_tmp m \<Longrightarrow> fills d m"
  by (simp add: keeps_tmp_def fills_def)

lemma keeps_tmp_tidy: "keeps_tmp m \<Longrightarrow> tidy m"
  by (simp add: keeps_tmp_def tidy_def)

lemma keeps_tmp_call: "keeps_tmp (call ev ans)"
  by (simp add: keeps_tmp_def call_def emit_def split: option.splits)

lemma keeps_tmp_return: "keeps_tmp (\<lambda>w. (r, w))"
  by (simp add: keeps_tmp_def)

lemma keeps_tmp_open_plotter: "keeps_tmp (open_plotter en)"
  by (simp add: keeps_tmp_def open_plotter_def call_def emit_def split: option.splits)

lemma keeps_tmp_close_plotter: "keeps_tmp (close_plotter en)"
  by (simp add: keeps_tmp_def close_plotter_def call_def emit_def split: option.splits)

lemma keeps_tmp_get_sorted_files: "keeps_tmp (get_sorted_files en d fmt tok)"
  by (simp add: keeps_tmp_def get_sorted_files_def emit_def Let_def split: sum.splits)

lemma fills_frame_loop: "fills tmp (frame_loop en d rate tmp xs frames)"
  unfolding fills_def using frame_loop_files [of en d rate tmp xs frames] 
  by (metis prod.collapse)

lemma fills_bind:
  assumes "fills d m" and "\<And>x. fills d (f x)"
  shows "fills d (bind m f)"
  unfolding fills_def
proof (intro allI)
  fix w
  obtain r w1 where m: "m w = (r, w1)" by (cases "m w")
  from assms(1) m obtain ps where 1: "tmp_dirs w1 = tmp_dirs w" "tmp_files w1 = tmp_files w @ ps"
    "\<forall>p\<in>set ps. inside d p"
    unfolding fills_def by (metis snd_conv)
  show "tmp_dirs (snd (bind m f w)) = tmp_dirs w
      \<and> (\<exists>ps. tmp_files (snd (bind m f w)) = tmp_files w @ ps \<and> (\<forall>p\<in>set ps. inside d p))"
  proof (cases r)
    case (Inl e)
    with m 1 show ?thesis by (auto simp: bind_def)
  next
    case (Inr x)
    from assms(2) [of x] obtain qs where 2: "tmp_dirs (snd (f x w1)) = tmp_dirs w1"
      "tmp_files (snd (f x w1)) = tmp_files w1 @ qs" "\<forall>p\<in>set qs. inside d p"
      unfolding fills_def by blast
    have "tmp_files (snd (f x w1)) = tmp_files w @ (ps @ qs)" using 1 2 by simp
    moreover have "\<forall>p\<in>set (ps @ qs). inside d p" using 1 2 by auto
    ultimately show ?thesis using Inr m 1 2 unfolding bind_def by (metis (no_types, lifting) case_prod_conv sum.simps(6))
  qed
qed

lemma tidy_bind:
  assumes "tidy m" and "\<And>x. tidy (f x)"
  shows "tidy (bind m f)"
  unfolding tidy_def
proof (intro allI)
  fix w
  obtain r w1 where m: "m w = (r, w1)" by (cases "m w")
  from assms(1) m have 1: "set (tmp_files w1) \<subseteq> set (tmp_files w)" "set (tmp_dirs w1) \<subseteq> set (tmp_dirs w)"
    unfolding tidy_def by (metis snd_conv)+
  show "set (tmp_files (snd (bind m f w))) \<subseteq> set (tmp_files w)
      \<and> set (tmp_dirs (snd (bind m f w))) \<subseteq> set (tmp_dirs w)"
  proof (cases r)
    case (Inl e)
    with m 1 show ?thesis by (simp add: bind_def)
  next
    case (Inr x)
    from assms(2) [of x] have "set (tmp_files (snd (f x w1))) \<subseteq> set (tmp_files w1)"
      "set (tmp_dirs (snd (f x w1))) \<subseteq> set (tmp_dirs w1)"
      unfolding tidy_def by blast+
    with 1 Inr m show ?thesis by (auto simp: bind_def)
  qed
qed

lemma tidy_with_temporary_directory:
  assumes "\<And>d. fills d (body d)"
  shows "tidy (with_temporary_directory en body)"
  unfolding tidy_def
proof (intro allI)
  fix w
  show "set (tmp_files (snd (with_temporary_directory en body w))) \<subseteq> set (tmp_files w)
      \<and> set (tmp_dirs (snd (with_temporary_directory en body w))) \<subseteq> set (tmp_dirs w)"
  proof (cases "mkdtemp en")
    case (Inl e)
    then show ?thesis by (simp add: with_temporary_directory_def emit_def)
  next
    case (Inr d)
    let ?w1 = "(emit MkDTemp w)\<lparr>tmp_dirs := tmp_dirs w @ [d]\<rparr>"
    obtain r w2 where b: "body d ?w1 = (r, w2)" by (cases "body d ?w1")
    from assms [of d] b obtain ps where 1: "tmp_dirs w2 = tmp_dirs ?w1"
      "tmp_files w2 = tmp_files ?w1 @ ps" "\<forall>p\<in>set ps. inside d p"
      unfolding fills_def by (metis snd_conv)
    have "snd (with_temporary_directory en body w) = cleanup d w2"
      using Inr b by (simp add: with_temporary_directory_def)
    then show ?thesis using 1 by (auto simp: cleanup_def emit_def)
  qed
qed

text \<open>
  C6. However the call ends, it leaves no temporary directory and no temporary file
  behind: whatever is on disk afterwards was there before the call.
\<close>

theorem temporary_files_removed:
  "set (tmp_files (snd (create_movie_from_vtk en a w))) \<subseteq> set (tmp_files w)
   \<and> set (tmp_dirs (snd (create_movie_from_vtk en a w))) \<subseteq> set (tmp_dirs w)"
proof -
  have "tidy (create_movie_from_vtk en a)"
    unfolding create_movie_from_vtk_def
    by (intro tidy_bind tidy_with_temporary_directory fills_bind fills_frame_loop
        keeps_tmp_tidy keeps_tmp_fills keeps_tmp_call keeps_tmp_return keeps_tmp_open_plotter
        keeps_tmp_close_plotter keeps_tmp_get_sorted_files)
      (simp_all add: keeps_tmp_call keeps_tmp_return keeps_tmp_tidy)
  then show ?thesis by (simp add: tidy_def)
qed

theorem temporary_files_removed_witness:
  "tmp_files (snd (frame_loop (demo_env [''f_1.vtk''] (\<lambda>p. None)) ''out'' 60
        ''/tmp/tmpq1'' [(0, DirEntry ''out/f_1.vtk'')] [] empty_world))
     = [''/tmp/tmpq1/frame_00000.png'']
   \<and> tmp_files (snd (create_movie_from_vtk (demo_env [''f_1.vtk''] (\<lambda>p. None))
        (demo_args 60) empty_world)) = []
   \<and> tmp_dirs (snd (create_movie_from_vtk (demo_env [''f_1.vtk''] (\<lambda>p. None))
        (demo_args 60) empty_world)) = []"
proof -
  have "tmp_files (snd (frame_loop (demo_env [''f_1.vtk''] (\<lambda>p. None)) ''out'' 60
        ''/tmp/tmpq1'' [(0, DirEntry ''out/f_1.vtk'')] [] empty_world))
     = [''/tmp/tmpq1/frame_00000.png'']"
    by code_simp
  moreover have "tmp_files empty_world = []" "tmp_dirs empty_world = []"
    by (simp_all add: empty_world_def)
  ultimately show ?thesis
    using temporary_files_removed [of "demo_env [''f_1.vtk''] (\<lambda>p. None)" "demo_args 60" empty_world]
    by simp
qed

subsection \<open>The encoder\<close>

text \<open>
  C7. In a run that succeeds the encoder is called once: \<^verbatim>\<open>ImageSequenceClip\<close> gets the
  paths of the images written, in the order they were written, which is the order of
  the sampled positions in the sorted list, and the configured frame rate; then
  \<^verbatim>\<open>write_videofile\<close> gets the movie path.
\<close>

theorem encoder_called_once_in_order:
  assumes "create_movie_from_vtk en a w = (Inr (), w')"
    and "fst (get_sorted_files en (vtk_output_dir a) ''.vtk'' ''_'' w) = Inr vtk_files"
  shows "\<exists>tmp_dir. mkdtemp en = Inr tmp_dir
       \<and> filter is_encoder_call (trace w') = filter is_encoder_call (trace w)
            @ [ImageSequenceClip
                 (map (\<lambda>p. os_path_join tmp_dir (image_frame_name p))
                    (sampled (fps a) (length vtk_files))) (fps a),
               WriteVideofile (movie_path a)]
       \<and> screenshots (trace w') = screenshots (trace w)
            @ map (\<lambda>p. os_path_join tmp_dir (image_frame_name p))
                (sampled (fps a) (length vtk_files))
       \<and> reads (trace w') = reads (trace w)
            @ map (\<lambda>p. os_path_join (vtk_output_dir a) (path (vtk_files ! p)))
                (sampled (fps a) (length vtk_files))
       \<and> sorted_wrt (<) (sampled (fps a) (length vtk_files))"
proof -
  from create_movie_success [OF assms(1)] assms(2) obtain tmp where
    t: "mkdtemp en = Inr tmp"
    and tr: "trace w' = trace w @ (if virtual_display a then [StartXvfb] else [])
        @ [SetBackground ''white'', Exists (vtk_output_dir a), Scandir (vtk_output_dir a),
           NewPlotter, SetCamera, MkDTemp]
        @ concat (map (frame_events (vtk_output_dir a) tmp)
            (selected (fps a) (zip [0..<length vtk_files] vtk_files)))
        @ [PlotterClose,
           ImageSequenceClip
             (map (\<lambda>x. os_path_join tmp (image_frame_name (fst x)))
                (selected (fps a) (zip [0..<length vtk_files] vtk_files))) (fps a),
           WriteVideofile (movie_path a), Cleanup tmp]"
    by auto
  have e: "filter is_encoder_call (trace w') = filter is_encoder_call (trace w)
            @ [ImageSequenceClip
                 (map (\<lambda>p. os_path_join tmp (image_frame_name p))
                    (sampled (fps a) (length vtk_files))) (fps a),
               WriteVideofile (movie_path a)]"
    unfolding tr encoder_append encoder_frame_events selected_zip
    by (simp add: is_encoder_call_def comp_def)
  have sc: "screenshots (trace w') = screenshots (trace w)
            @ map (\<lambda>p. os_path_join tmp (image_frame_name p)) (sampled (fps a) (length vtk_files))"
    unfolding tr screenshots_append screenshots_frame_events selected_zip
    by (simp add: screenshots_def comp_def)
  have r: "reads (trace w') = reads (trace w)
            @ map (\<lambda>p. os_path_join (vtk_output_dir a) (path (vtk_files ! p)))
                (sampled (fps a) (length vtk_files))"
    unfolding tr reads_append reads_frame_events selected_zip
    by (simp add: reads_def comp_def)
  from t e sc r sorted_sampled [of "fps a" "length vtk_files"] show ?thesis by blast
qed

theorem encoder_called_once_in_order_witness:
  "fst (create_movie_from_vtk (demo_env [''f_10.vtk'', ''f_2.vtk'', ''f_1.vtk''] (\<lambda>p. None))
          (demo_args 40) empty_world) = Inr ()
   \<and> filter is_encoder_call (trace (snd (create_movie_from_vtk
          (demo_env [''f_10.vtk'', ''f_2.vtk'', ''f_1.vtk''] (\<lambda>p. None)) (demo_args 40) empty_world)))
       = [ImageSequenceClip [''/tmp/tmpq1/frame_00000.png'', ''/tmp/tmpq1/frame_00002.png''] 40,
          WriteVideofile ''movie.mp4'']"
proof -
  let ?E = "demo_env [''f_10.vtk'', ''f_2.vtk'', ''f_1.vtk''] (\<lambda>p. None)"
  let ?fs = "[DirEntry ''out/f_1.vtk'', DirEntry ''out/f_2.vtk'', DirEntry ''out/f_10.vtk'']"
  let ?w' = "snd (create_movie_from_vtk ?E (demo_args 40) empty_world)"
  have ok: "fst (create_movie_from_vtk ?E (demo_args 40) empty_world) = Inr ()"
    by (rule demo_run_three)
  then have h1: "create_movie_from_vtk ?E (demo_args 40) empty_world = (Inr (), ?w')"
    by (metis prod.collapse)
  have h2: "fst (get_sorted_files ?E (vtk_output_dir (demo_args 40)) ''.vtk'' ''_'' empty_world)
      = Inr ?fs" by (simp add: demo_args_def demo_sorted_three)
  have t: "mkdtemp ?E = Inr ''/tmp/tmpq1''" by (simp add: demo_env_def)
  have s: "map (\<lambda>p. os_path_join ''/tmp/tmpq1'' (image_frame_name p))
             (sampled 40 (length ?fs))
           = [''/tmp/tmpq1/frame_00000.png'', ''/tmp/tmpq1/frame_00002.png'']"
    by code_simp
  have f: "fps (demo_args 40) = 40" "movie_path (demo_args 40) = ''movie.mp4''"
    by (simp_all add: demo_args_def)
  from encoder_called_once_in_order [OF h1 h2] t
  have "filter is_encoder_call (trace ?w') = filter is_encoder_call (trace empty_world)
            @ [ImageSequenceClip
                 (map (\<lambda>p. os_path_join ''/tmp/tmpq1'' (image_frame_name p))
                    (sampled (fps (demo_args 40)) (length ?fs))) (fps (demo_args 40)),
               WriteVideofile (movie_path (demo_args 40))]"
    by auto
  then have "filter is_encoder_call (trace ?w')
       = [ImageSequenceClip [''/tmp/tmpq1/frame_00000.png'', ''/tmp/tmpq1/frame_00002.png''] 40,
          WriteVideofile ''movie.mp4'']"
    unfolding f s by (simp add: empty_world_def)
  with ok show ?thesis by blast
qed

subsection \<open>A stride of zero\<close>

lemma py_round_div_zero: "120 \<le> rate \<Longrightarrow> py_round_div 60 rate = 0"
  by (simp add: py_round_div_def Let_def)

lemma sample_test_zero: "120 \<le> rate \<Longrightarrow> sample_test rate p = Inl ZeroDivisionError"
  by (simp add: sample_test_def stride_def py_round_div_zero)

lemma frame_loop_first_test_raises:
  "xs \<noteq> [] \<Longrightarrow> sample_test rate (fst (hd xs)) = Inl e \<Longrightarrow>
   frame_loop en d rate tmp xs frames w = (Inl e, w)"
  by (cases xs) auto

text \<open>
  C9. For a frame rate of 120 or more the stride is 0. When the steps before the loop
  succeed and the directory has a matching file, the call raises \<^verbatim>\<open>ZeroDivisionError\<close>
  at the first sampling test, with no mesh read and no frame rendered.
\<close>

theorem render_zero_stride:
  assumes "120 \<le> fps a"
    and "virtual_display a \<longrightarrow> start_xvfb en = None"
    and "fst (get_sorted_files en (vtk_output_dir a) ''.vtk'' ''_'' w) = Inr vtk_files"
    and "vtk_files \<noteq> []"
    and "new_plotter en = None" and "set_camera en = None" and "mkdtemp en = Inr tmp_dir"
  shows "stride (fps a) = Inr 0
       \<and> fst (create_movie_from_vtk en a w) = Inl ZeroDivisionError
       \<and> trace (snd (create_movie_from_vtk en a w))
           = trace w @ (if virtual_display a then [StartXvfb] else [])
             @ [SetBackground ''white'', Exists (vtk_output_dir a), Scandir (vtk_output_dir a),
                NewPlotter, SetCamera, MkDTemp, Cleanup tmp_dir]
       \<and> filter is_render_call (trace (snd (create_movie_from_vtk en a w)))
           = filter is_render_call (trace w)"
proof -
  let ?d = "vtk_output_dir a"
  have st: "stride (fps a) = Inr 0"
    using assms(1) by (simp add: stride_def py_round_div_zero)
  have g: "\<And>w1. get_sorted_files en ?d ''.vtk'' ''_'' w1
      = (Inr vtk_files, emit (Scandir ?d) (emit (Exists ?d) w1))"
    using assms(3) by (simp add: get_sorted_files_Inr_iff [where ?w0.0 = w])
  have ne: "zip [0..<length vtk_files] vtk_files \<noteq> []" using assms(4) by simp
  have l: "\<And>w1. frame_loop en ?d (fps a) tmp_dir (zip [0..<length vtk_files] vtk_files) [] w1
      = (Inl ZeroDivisionError, w1)"
    using ne assms(1) by (simp add: frame_loop_first_test_raises sample_test_zero)
  have run: "create_movie_from_vtk en a w
      = (Inl ZeroDivisionError,
         w\<lparr>trace := trace w @ (if virtual_display a then [StartXvfb] else [])
             @ [SetBackground ''white'', Exists ?d, Scandir ?d, NewPlotter, SetCamera, MkDTemp,
                Cleanup tmp_dir],
           plotter_open := True,
           tmp_dirs := removeAll tmp_dir (tmp_dirs w @ [tmp_dir]),
           tmp_files := filter (\<lambda>p. \<not> inside tmp_dir p) (tmp_files w)\<rparr>)"
    using assms(2,5,6,7)
    by (simp add: create_movie_from_vtk_def bind_def call_def g l open_plotter_def
        with_temporary_directory_def cleanup_def emit_def)
  show ?thesis
    unfolding run using st by (simp add: is_render_call_def)
qed

theorem render_zero_stride_witness:
  "(120::int) \<le> fps (demo_args 120)
   \<and> fst (get_sorted_files (demo_env [''f_1.vtk''] (\<lambda>p. None)) ''out'' ''.vtk'' ''_'' empty_world)
       = Inr [DirEntry ''out/f_1.vtk'']
   \<and> fst (create_movie_from_vtk (demo_env [''f_1.vtk''] (\<lambda>p. None)) (demo_args 120) empty_world)
       = Inl ZeroDivisionError
   \<and> trace (snd (create_movie_from_vtk (demo_env [''f_1.vtk''] (\<lambda>p. None)) (demo_args 120)
        empty_world))
       = [StartXvfb, SetBackground ''white'', Exists ''out'', Scandir ''out'', NewPlotter,
          SetCamera, MkDTemp, Cleanup ''/tmp/tmpq1'']"
proof -
  let ?E = "demo_env [''f_1.vtk''] (\<lambda>p. None)"
  have h1: "120 \<le> fps (demo_args 120)" by (simp add: demo_args_def)
  have h2: "virtual_display (demo_args 120) \<longrightarrow> start_xvfb ?E = None" by (simp add: demo_env_def)
  have g: "fst (get_sorted_files ?E ''out'' ''.vtk'' ''_'' empty_world) = Inr [DirEntry ''out/f_1.vtk'']"
    by code_simp
  have d: "vtk_output_dir (demo_args 120) = ''out''" "virtual_display (demo_args 120)"
    by (simp_all add: demo_args_def)
  have h3: "fst (get_sorted_files ?E (vtk_output_dir (demo_args 120)) ''.vtk'' ''_'' empty_world)
      = Inr [DirEntry ''out/f_1.vtk'']" using g by (simp only: d)
  have h4: "[DirEntry ''out/f_1.vtk''] \<noteq> []" by simp
  have h5: "new_plotter ?E = None" and h6: "set_camera ?E = None"
    and h7: "mkdtemp ?E = Inr ''/tmp/tmpq1''" by (simp_all add: demo_env_def)
  from render_zero_stride [OF h1 h2 h3 h4 h5 h6 h7] h1 g show ?thesis
    by (simp add: d empty_world_def)
qed

subsection \<open>The path handed to the mesh reader\<close>

lemma os_path_join_empty:
  "d \<noteq> [] \<Longrightarrow> os_path_join d [] = (if last d = CHR ''/'' then d else d @ ''/'')"
  by (simp add: os_path_join_def)

lemma os_path_join_name:
  "CHR ''/'' \<notin> set n \<Longrightarrow> os_path_join d n = os_path_join d [] @ n"
  by (cases n) (auto simp: os_path_join_def)

lemma os_path_join_entry_path:
  assumes "d \<noteq> []" and "CHR ''/'' \<notin> set n"
  shows "(os_path_join d (os_path_join d n) = os_path_join d n \<longleftrightarrow> hd d = CHR ''/'')
       \<and> (hd d \<noteq> CHR ''/'' \<longrightarrow>
            os_path_join d (os_path_join d n) = os_path_join d [] @ os_path_join d [] @ n)"
proof -
  let ?X = "os_path_join d []"
  have X: "?X \<noteq> []" "hd ?X = hd d" using assms(1) by (auto simp: os_path_join_empty)
  have p: "os_path_join d n = ?X @ n" using assms(2) by (rule os_path_join_name)
  have ne: "?X @ n \<noteq> []" and h: "hd (?X @ n) = hd d" using X by simp_all
  show ?thesis
  proof (cases "hd d = CHR ''/''")
    case True
    then have "os_path_join d (?X @ n) = ?X @ n" using ne h by (simp add: os_path_join_def)
    with True p show ?thesis by simp
  next
    case False
    then have "os_path_join d (?X @ n) = ?X @ ?X @ n"
      using ne h assms(1) by (auto simp: os_path_join_def)
    moreover have "?X @ ?X @ n \<noteq> ?X @ n" using X(1) by simp
    ultimately show ?thesis using False p by simp
  qed
qed

lemma get_sorted_files_entries:
  assumes "fst (get_sorted_files en d fmt tok w) = Inr out"
    and "dir_names en d = Inr names"
  shows "set out \<subseteq> (\<lambda>n. DirEntry (os_path_join d n)) ` set names"
proof -
  have e: "path_exists en d"
    using assms(1) by (auto simp: get_sorted_files_def Let_def split: if_splits)
  let ?files = "filter (\<lambda>file. path_suffix (path file) = fmt)
                  (map (\<lambda>n. DirEntry (os_path_join d n)) names)"
  have "sorted_by (get_alphanum_key tok) ?files = Inr out"
    using assms(1) get_sorted_files_listing [OF e assms(2), of fmt tok w] by simp
  then have "out = sort_key (key_val (get_alphanum_key tok)) ?files" by (rule sorted_by_Inr(1))
  then show ?thesis by auto
qed

text \<open>
  C10. The path read for a sampled file is \<^verbatim>\<open>os.path.join\<close> of the source directory and
  the entry's path, which is itself the join of the source directory and the entry's
  name. The result is the entry's path exactly when the source directory is absolute;
  for a relative source directory the directory stands twice in it.
\<close>

theorem mesh_path_joins_directory_twice:
  assumes "create_movie_from_vtk en a w = (Inr (), w')"
    and "fst (get_sorted_files en (vtk_output_dir a) ''.vtk'' ''_'' w) = Inr vtk_files"
    and "dir_names en (vtk_output_dir a) = Inr names"
    and "\<forall>n\<in>set names. CHR ''/'' \<notin> set n"
    and "vtk_output_dir a \<noteq> []"
  shows "reads (trace w') = reads (trace w)
            @ map (\<lambda>p. os_path_join (vtk_output_dir a) (path (vtk_files ! p)))
                (sampled (fps a) (length vtk_files))
       \<and> (\<forall>file\<in>set vtk_files. \<exists>n\<in>set names.
             path file = os_path_join (vtk_output_dir a) n
           \<and> (os_path_join (vtk_output_dir a) (path file) = path file
                \<longleftrightarrow> hd (vtk_output_dir a) = CHR ''/'')
           \<and> (hd (vtk_output_dir a) \<noteq> CHR ''/'' \<longrightarrow>
                os_path_join (vtk_output_dir a) (path file)
                  = os_path_join (vtk_output_dir a) [] @ os_path_join (vtk_output_dir a) [] @ n))"
proof -
  let ?d = "vtk_output_dir a"
  from create_movie_success [OF assms(1)] assms(2) obtain tmp where
    tr: "trace w' = trace w @ (if virtual_display a then [StartXvfb] else [])
        @ [SetBackground ''white'', Exists ?d, Scandir ?d, NewPlotter, SetCamera, MkDTemp]
        @ concat (map (frame_events ?d tmp)
            (selected (fps a) (zip [0..<length vtk_files] vtk_files)))
        @ [PlotterClose,
           ImageSequenceClip
             (map (\<lambda>x. os_path_join tmp (image_frame_name (fst x)))
                (selected (fps a) (zip [0..<length vtk_files] vtk_files))) (fps a),
           WriteVideofile (movie_path a), Cleanup tmp]"
    by auto
  have r: "reads (trace w') = reads (trace w)
            @ map (\<lambda>p. os_path_join ?d (path (vtk_files ! p))) (sampled (fps a) (length vtk_files))"
    unfolding tr reads_append reads_frame_events selected_zip
    by (simp add: reads_def comp_def)
  have "\<forall>file\<in>set vtk_files. \<exists>n\<in>set names.
             path file = os_path_join ?d n
           \<and> (os_path_join ?d (path file) = path file \<longleftrightarrow> hd ?d = CHR ''/'')
           \<and> (hd ?d \<noteq> CHR ''/'' \<longrightarrow>
                os_path_join ?d (path file) = os_path_join ?d [] @ os_path_join ?d [] @ n)"
  proof
    fix f assume "f \<in> set vtk_files"
    then obtain n where n: "n \<in> set names" "f = DirEntry (os_path_join ?d n)"
      using get_sorted_files_entries [OF assms(2,3)] by auto
    have "CHR ''/'' \<notin> set n" using n(1) assms(4) by simp
    from os_path_join_entry_path [OF assms(5) this] n
    show "\<exists>n\<in>set names.
             path f = os_path_join ?d n
           \<and> (os_path_join ?d (path f) = path f \<longleftrightarrow> hd ?d = CHR ''/'')
           \<and> (hd ?d \<noteq> CHR ''/'' \<longrightarrow>
                os_path_join ?d (path f) = os_path_join ?d [] @ os_path_join ?d [] @ n)"
      by auto
  qed
  with r show ?thesis by blast
qed

theorem mesh_path_joins_directory_twice_witness:
  "fst (create_movie_from_vtk (demo_env [''f_10.vtk'', ''f_2.vtk'', ''f_1.vtk''] (\<lambda>p. None))
          (demo_args 40) empty_world) = Inr ()
   \<and> hd (vtk_output_dir (demo_args 40)) \<noteq> CHR ''/''
   \<and> path (DirEntry ''out/f_2.vtk'') = os_path_join ''out'' ''f_2.vtk''
   \<and> os_path_join ''out'' (path (DirEntry ''out/f_2.vtk'')) = ''out/out/f_2.vtk''
   \<and> os_path_join ''out'' (path (DirEntry ''out/f_2.vtk'')) \<noteq> path (DirEntry ''out/f_2.vtk'')
   \<and> os_path_join ''/data'' (os_path_join ''/data'' ''f_2.vtk'') = ''/data/f_2.vtk''"
proof -
  let ?E = "demo_env [''f_10.vtk'', ''f_2.vtk'', ''f_1.vtk''] (\<lambda>p. None)"
  let ?fs = "[DirEntry ''out/f_1.vtk'', DirEntry ''out/f_2.vtk'', DirEntry ''out/f_10.vtk'']"
  let ?w' = "snd (create_movie_from_vtk ?E (demo_args 40) empty_world)"
  have ok: "fst (create_movie_from_vtk ?E (demo_args 40) empty_world) = Inr ()"
    by (rule demo_run_three)
  then have h1: "create_movie_from_vtk ?E (demo_args 40) empty_world = (Inr (), ?w')"
    by (metis prod.collapse)
  have d: "vtk_output_dir (demo_args 40) = ''out''" by (simp add: demo_args_def)
  have h2: "fst (get_sorted_files ?E (vtk_output_dir (demo_args 40)) ''.vtk'' ''_'' empty_world)
      = Inr ?fs" by (simp add: d demo_sorted_three)
  have h3: "dir_names ?E (vtk_output_dir (demo_args 40)) = Inr [''f_10.vtk'', ''f_2.vtk'', ''f_1.vtk'']"
    by (simp add: demo_env_def)
  have h4: "\<forall>n\<in>set [''f_10.vtk'', ''f_2.vtk'', ''f_1.vtk'']. CHR ''/'' \<notin> set n" by simp
  have h5: "vtk_output_dir (demo_args 40) \<noteq> []" by (simp add: d)
  have rel: "hd (vtk_output_dir (demo_args 40)) \<noteq> CHR ''/''" by (simp add: d)
  have j: "os_path_join ''out'' ''f_2.vtk'' = ''out/f_2.vtk''"
          "os_path_join ''out'' [] = ''out/''"
          "os_path_join ''/data'' (os_path_join ''/data'' ''f_2.vtk'') = ''/data/f_2.vtk''"
    by code_simp+
  have m: "DirEntry ''out/f_2.vtk'' \<in> set ?fs" by simp
  from mesh_path_joins_directory_twice [OF h1 h2 h3 h4 h5] m rel
  obtain n where n: "path (DirEntry ''out/f_2.vtk'') = os_path_join ''out'' n"
    "os_path_join ''out'' (path (DirEntry ''out/f_2.vtk'')) \<noteq> path (DirEntry ''out/f_2.vtk'')"
    "os_path_join ''out'' (path (DirEntry ''out/f_2.vtk'')) = os_path_join ''out'' [] @ os_path_join ''out'' [] @ n"
    unfolding d by blast
  have "os_path_join ''out'' (path (DirEntry ''out/f_2.vtk'')) = ''out/out/f_2.vtk''"
    by code_simp
  with ok rel n(2) j show ?thesis by simp
qed

subsection \<open>The names of the image files\<close>

lemma length_fixed: "length (fixed k n) = k"
  by (induction k arbitrary: n) simp_all

lemma digit_char_0: "digit_char 0 = CHR ''0''"
  by code_simp

lemma fixed_zero: "fixed k 0 = replicate k CHR ''0''"
  by (induction k) (simp_all add: digit_char_0 replicate_append_same)

lemma of_char_digit_char: "d < 10 \<Longrightarrow> of_char (digit_char d) = 48 + d"
  by (simp add: digit_char_def)

lemma digit_char_no_sign: "d < 10 \<Longrightarrow> digit_char d \<noteq> CHR ''+'' \<and> digit_char d \<noteq> CHR ''-''"
proof -
  assume d: "d < 10"
  have "of_char (digit_char d) \<noteq> (43::nat)" "of_char (digit_char d) \<noteq> (45::nat)"
    using d by (simp_all add: of_char_digit_char)
  then show ?thesis by auto
qed

lemma digit_char_mono: "a < b \<Longrightarrow> b < 10 \<Longrightarrow> digit_char a < digit_char b"
  by (simp add: less_char_def of_char_digit_char)

lemma str_nat_head: "str_nat n \<noteq> [] \<and> hd (str_nat n) \<noteq> CHR ''+'' \<and> hd (str_nat n) \<noteq> CHR ''-''"
proof (induction n rule: str_nat.induct)
  case (1 n)
  show ?case
  proof (cases "n < 10")
    case True
    then show ?thesis using digit_char_no_sign [of n] by (simp add: str_nat.simps [of n])
  next
    case False
    with 1 show ?thesis by (simp add: str_nat.simps [of n])
  qed
qed

lemma zfill_digits:
  "s \<noteq> [] \<Longrightarrow> hd s \<noteq> CHR ''+'' \<Longrightarrow> hd s \<noteq> CHR ''-'' \<Longrightarrow>
   zfill width s = replicate (width - length s) CHR ''0'' @ s"
  by (cases s) (simp_all add: zfill_def)

lemma zfill_str_nat: "zfill width (str_nat n) = replicate (width - length (str_nat n)) CHR ''0'' @ str_nat n"
  using str_nat_head [of n] by (simp add: zfill_digits)

lemma str_nat_pad:
  "0 < k \<Longrightarrow> n < 10 ^ k \<Longrightarrow>
   length (str_nat n) \<le> k \<and> replicate (k - length (str_nat n)) CHR ''0'' @ str_nat n = fixed k n"
proof (induction k arbitrary: n)
  case 0
  then show ?case by simp
next
  case (Suc k)
  show ?case
  proof (cases "n < 10")
    case True
    then show ?thesis
      by (simp add: str_nat.simps [of n] fixed_zero)
  next
    case False
    then have k: "0 < k" using Suc.prems(2) by (cases k) simp_all
    have "n div 10 < 10 ^ k" using Suc.prems(2) by (simp add: less_mult_imp_div_less mult.commute)
    from Suc.IH [OF k this] False show ?thesis
      by (simp add: str_nat.simps [of n] Suc_diff_le)
  qed
qed

lemma str_nat_long: "10 ^ k \<le> n \<Longrightarrow> k < length (str_nat n)"
proof (induction k arbitrary: n)
  case 0
  then show ?case using str_nat_head [of n] by (cases "str_nat n") simp_all
next
  case (Suc k)
  have "(1::nat) \<le> 10 ^ k" by simp
  then have t: "(10::nat) \<le> 10 * 10 ^ k" by simp
  have "10 * 10 ^ k \<le> n" using Suc.prems by simp
  with t have "\<not> n < 10" by linarith
  moreover have "10 ^ k \<le> n div 10" using Suc.prems by (simp add: less_eq_div_iff_mult_less_eq)
  ultimately show ?case using Suc.IH [of "n div 10"] by (simp add: str_nat.simps [of n])
qed

lemma list_less_append_same_length:
  fixes xs ys :: "'a::linorder list"
  shows "xs < ys \<Longrightarrow> length xs = length ys \<Longrightarrow> xs @ u < ys @ v"
  unfolding list_less_def by (rule lexord_sufI) simp_all

lemma list_less_append_left:
  fixes u v :: "'a::linorder list"
  shows "u < v \<Longrightarrow> xs @ u < xs @ v"
  unfolding list_less_def by (rule lexord_append_leftI)

lemma fixed_mono: "i < j \<Longrightarrow> j < 10 ^ k \<Longrightarrow> fixed k i < fixed k j"
proof (induction k arbitrary: i j)
  case 0
  then show ?case by simp
next
  case (Suc k)
  have le: "i div 10 \<le> j div 10" using Suc.prems(1) by (simp add: div_le_mono)
  show ?case
  proof (cases "i div 10 < j div 10")
    case True
    have "j div 10 < 10 ^ k" using Suc.prems(2) by (simp add: less_mult_imp_div_less mult.commute)
    from Suc.IH [OF True this] show ?thesis
      by (simp add: list_less_append_same_length length_fixed)
  next
    case False
    with le have eq: "i div 10 = j div 10" by simp
    then have "i mod 10 < j mod 10" using Suc.prems(1)
      by (metis div_mult_mod_eq nat_add_left_cancel_less)
    then have "[digit_char (i mod 10)] < [digit_char (j mod 10)]"
      by (simp add: digit_char_mono)
    then show ?thesis by (simp add: eq list_less_append_left)
  qed
qed

lemma length_zfill: "length (zfill width s) = max width (length s)"
  by (cases s) (auto simp: zfill_def Let_def)

lemma digit_chars:
  "digit_char 0 = CHR ''0''" "digit_char 1 = CHR ''1''" "digit_char 2 = CHR ''2''"
  "digit_char 3 = CHR ''3''" "digit_char 4 = CHR ''4''" "digit_char 5 = CHR ''5''"
  "digit_char 6 = CHR ''6''" "digit_char 7 = CHR ''7''" "digit_char 8 = CHR ''8''"
  "digit_char 9 = CHR ''9''" "digit_char (Suc 0) = CHR ''1''"
  by code_simp+

lemma replicate_small:
  "replicate 2 c = [c, c]" "replicate 3 c = [c, c, c]"
  by (simp_all add: numeral_2_eq_2 numeral_3_eq_3)

text \<open>
  C8, as the code has it. The image of the file at position \<open>i\<close> of the sorted list is
  named \<^verbatim>\<open>frame_\<close>, then \<open>i\<close> padded with zeros to at least 5 digits, then \<^verbatim>\<open>.png\<close>.
  For positions below 100000 the alphabetical order of the names is the order of the
  positions. From position 100000 on the number is written unpadded, in 6 digits or
  more: nothing is cut off and nothing raises.
\<close>

theorem image_frame_name_order:
  "5 \<le> length (zfill 5 (str_nat i))
   \<and> (i < j \<and> j < 100000 \<longrightarrow> image_frame_name i < image_frame_name j)
   \<and> (100000 \<le> i \<longrightarrow> zfill 5 (str_nat i) = str_nat i \<and> 6 \<le> length (str_nat i))"
proof -
  have a: "5 \<le> length (zfill 5 (str_nat i))" by (simp add: length_zfill)
  have b: "i < j \<and> j < 100000 \<longrightarrow> image_frame_name i < image_frame_name j"
  proof
    assume h: "i < j \<and> j < 100000"
    have p: "\<And>n. n < 100000 \<Longrightarrow> zfill 5 (str_nat n) = fixed 5 n"
      using str_nat_pad [of 5] by (simp add: zfill_str_nat)
    have "fixed 5 i < fixed 5 j" using h by (intro fixed_mono) simp_all
    then have "fixed 5 i @ ''.png'' < fixed 5 j @ ''.png''"
      by (rule list_less_append_same_length) (simp add: length_fixed)
    then have "''frame_'' @ fixed 5 i @ ''.png'' < ''frame_'' @ fixed 5 j @ ''.png''"
      by (rule list_less_append_left)
    then show "image_frame_name i < image_frame_name j"
      using h p [of i] p [of j] by (simp add: image_frame_name_def)
  qed
  have c: "100000 \<le> i \<longrightarrow> zfill 5 (str_nat i) = str_nat i \<and> 6 \<le> length (str_nat i)"
  proof
    assume "100000 \<le> i"
    then have "5 < length (str_nat i)" using str_nat_long [of 5 i] by simp
    then show "zfill 5 (str_nat i) = str_nat i \<and> 6 \<le> length (str_nat i)"
      by (simp add: zfill_str_nat)
  qed
  from a b c show ?thesis by blast
qed

theorem image_frame_name_order_witness:
  "(96::nat) < 102 \<and> (102::nat) < 100000
   \<and> image_frame_name 96 = ''frame_00096.png''
   \<and> image_frame_name 102 = ''frame_00102.png''
   \<and> image_frame_name 96 < image_frame_name 102
   \<and> zfill 5 (str_nat 100002) = ''100002''"
proof -
  have n: "image_frame_name 96 = ''frame_00096.png''" "image_frame_name 102 = ''frame_00102.png''"
    by (simp_all add: image_frame_name_def zfill_def str_nat.simps digit_chars replicate_small)
  have s: "str_nat 100002 = ''100002''" by (simp add: str_nat.simps digit_chars)
  from image_frame_name_order [of 96 102] have "image_frame_name 96 < image_frame_name 102"
    by simp
  moreover from image_frame_name_order [of 100002 0] have "zfill 5 (str_nat 100002) = str_nat 100002"
    by simp
  ultimately show ?thesis using n s by simp
qed

text \<open>
  At 10 frames per second the stride is 6: the frames sampled at positions 99996 and
  100002 are the 16667th and the 16668th. The loop renders position 100002 without
  raising, and its image name comes before that of position 99996 in alphabetical order.
\<close>

theorem image_frame_name_overflow_counterexample:
  "stride 10 = Inr 6
   \<and> (99996::nat) = 6 * 16666 \<and> (100002::nat) = 6 * 16667 \<and> (16667::nat) < 99999
   \<and> sample_test 10 99996 = Inr True \<and> sample_test 10 100002 = Inr True
   \<and> image_frame_name 99996 = ''frame_99996.png''
   \<and> image_frame_name 100002 = ''frame_100002.png''
   \<and> image_frame_name 100002 < image_frame_name 99996
   \<and> fst (frame_loop (demo_env [] (\<lambda>p. None)) ''out'' 10 ''/tmp/tmpq1''
            [(100002, DirEntry ''out/f_100002.vtk'')] [] empty_world)
       = Inr [''/tmp/tmpq1/frame_100002.png'']"
proof -
  have 1: "stride 10 = Inr 6" by (simp add: stride_def py_round_div_def)
  have 2: "sample_test 10 99996 = Inr True" "sample_test 10 100002 = Inr True"
    by (simp_all add: sample_test_def 1)
  have 3: "image_frame_name 99996 = ''frame_99996.png''"
    "image_frame_name 100002 = ''frame_100002.png''"
    by (simp_all add: image_frame_name_def zfill_def str_nat.simps digit_chars)
  have 4: "(''frame_100002.png'' :: string) < ''frame_99996.png''"
    by (simp add: less_char_def)
  have 5: "os_path_join ''/tmp/tmpq1'' ''frame_100002.png'' = ''/tmp/tmpq1/frame_100002.png''"
    by (simp add: os_path_join_def)
  have 6: "fst (frame_loop (demo_env [] (\<lambda>p. None)) ''out'' 10 ''/tmp/tmpq1''
            [(100002, DirEntry ''out/f_100002.vtk'')] [] empty_world)
       = Inr [''/tmp/tmpq1/frame_100002.png'']"
    by (simp add: 2 3 5 call_def take_screenshot_def demo_env_def Let_def)
  from 1 2 3 4 6 show ?thesis by simp
qed

end
